theory Spec2Isabelle
  imports Main "HOL-Library.Word" "HOL-Library.Sublist"
begin

section \<open>Data model\<close>

text \<open>
  The validation core of \<^verbatim>\<open>src/libValidator/Validator.cpp\<close>. Public keys, signatures
  and network peers are opaque to the validator; they are the type variables \<open>'pk\<close>,
  \<open>'sg\<close> and \<open>'peer\<close>. Byte buffers are lists of 8-bit words, hashes are 256-bit
  words, block numbers and indices are 64-bit words (\<^verbatim>\<open>uint64_t\<close>, so \<open>+ 1\<close> wraps).
\<close>

type_synonym bytes = "8 word list"
type_synonym BlockHash = "256 word"
type_synonym ShardingHash = "256 word"
type_synonym Address = bytes

text \<open>
  Every block carries its header, its hash and the co-signature envelope
  \<^verbatim>\<open>CS1, B1, CS2, B2\<close> (\<^verbatim>\<open>GetHeader, GetBlockHash, GetCS1, GetB1, GetCS2, GetB2\<close>).
\<close>

record ('h, 'sg) block =
  header :: 'h
  blockHash :: BlockHash
  CS1 :: 'sg
  B1 :: "bool list"
  CS2 :: 'sg
  B2 :: "bool list"

text \<open>
  The collaborators of \<^verbatim>\<open>CheckBlockCosignature\<close> that are not part of the validator:
  \<^verbatim>\<open>ConsensusCommon::NumForConsensus\<close>, \<^verbatim>\<open>MultiSig::AggregatePubKeys\<close> (a null pointer
  is \<open>None\<close>), \<^verbatim>\<open>MultiSig::MultiSigVerify\<close> over a whole buffer, the serialisation of
  a signature and \<^verbatim>\<open>BitVector::SetBitVector\<close> (the encoding of a bitmap). They are
  parameters of the model.
\<close>

record ('pk, 'sg) crypto =
  NumForConsensus :: "nat \<Rightarrow> nat"
  AggregatePubKeys :: "'pk list \<Rightarrow> 'pk option"
  MultiSigVerify :: "bytes \<Rightarrow> 'sg \<Rightarrow> 'pk \<Rightarrow> bool"
  SerializeSignature :: "'sg \<Rightarrow> bytes"
  SetBitVector :: "bool list \<Rightarrow> bytes"

section \<open>The co-signature check\<close>

text \<open>
  The loop of \<^verbatim>\<open>CheckBlockCosignature\<close> that walks the committee with a running
  \<^verbatim>\<open>index\<close>, collects the key of every member whose bit of \<^verbatim>\<open>B2\<close> is set and
  counts them. A committee member is a pair or a tuple whose first component is the
  public key (\<^verbatim>\<open>get<PubKey>(kv)\<close>). The loop runs only after the sizes were found
  equal, so \<^verbatim>\<open>B2.at(index)\<close> is always in range. \<^verbatim>\<open>count\<close> is an
  \<^verbatim>\<open>unsigned int\<close>; it is a natural number here (a committee has far fewer than
  \<open>2 ^ 32\<close> members).
\<close>

fun collect_keys :: "bool list \<Rightarrow> ('pk \<times> 'x) list \<Rightarrow> nat \<Rightarrow> nat \<Rightarrow> 'pk list \<Rightarrow> nat \<times> 'pk list" where
  "collect_keys bitmap [] index count keys = (count, keys)"
| "collect_keys bitmap (kv # rest) index count keys =
     (if bitmap ! index
      then collect_keys bitmap rest (index + 1) (count + 1) (keys @ [fst kv])
      else collect_keys bitmap rest (index + 1) count keys)"

definition CheckBlockCosignature ::
  "('pk, 'sg, 'z) crypto_scheme \<Rightarrow> ('h \<Rightarrow> bytes) \<Rightarrow> ('h, 'sg) block \<Rightarrow> ('pk \<times> 'x) list \<Rightarrow> bool" where
  "CheckBlockCosignature c serializeHeader blk commKeys =
     (if length commKeys \<noteq> length (B2 blk) then False
      else
        (case collect_keys (B2 blk) commKeys 0 0 [] of (count, keys) \<Rightarrow>
           if count \<noteq> NumForConsensus c (length (B2 blk)) then False
           else
             (case AggregatePubKeys c keys of
                None \<Rightarrow> False
              | Some aggregatedKey \<Rightarrow>
                  (let serializedHeader =
                         serializeHeader (header blk) @ SerializeSignature c (CS1 blk)
                           @ SetBitVector c (B1 blk)
                   in if \<not> MultiSigVerify c serializedHeader (CS2 blk) aggregatedKey
                      then False else True))))"

text \<open>
  The words of the specification: the keys at the positions where the bitmap is set, the
  number of set positions, and the canonical signed buffer.
\<close>

definition selected_keys :: "bool list \<Rightarrow> ('pk \<times> 'x) list \<Rightarrow> 'pk list" where
  "selected_keys bitmap comm = map (\<lambda>p. fst (snd p)) (filter fst (zip bitmap comm))"

definition count_set :: "bool list \<Rightarrow> nat" where
  "count_set bitmap = length (filter (\<lambda>b. b) bitmap)"

definition cosig_message :: "('pk, 'sg, 'z) crypto_scheme \<Rightarrow> ('h \<Rightarrow> bytes) \<Rightarrow> ('h, 'sg) block \<Rightarrow> bytes" where
  "cosig_message c serializeHeader blk =
     serializeHeader (header blk) @ SerializeSignature c (CS1 blk) @ SetBitVector c (B1 blk)"

text \<open>
  Modelled from the spec: \<^verbatim>\<open>ConsensusCommon::NumForConsensus\<close> is not among the
  sources. The specification gives the threshold as \<open>\<lceil>2n/3\<rceil> + 1\<close>.
\<close>

definition threshold :: "nat \<Rightarrow> nat" where
  "threshold n = (2 * n + 2) div 3 + 1"

text \<open>
  A small concrete instance of the collaborators, for evaluating the check on explicit
  blocks: keys and signatures are numbers, the aggregate of a non-empty key list is its
  sum, and a signature verifies when it equals the aggregated key.
\<close>

definition sum_aggregate :: "nat list \<Rightarrow> nat option" where
  "sum_aggregate keys = (if keys = [] then None else Some (sum_list keys))"

definition equal_verify :: "bytes \<Rightarrow> nat \<Rightarrow> nat \<Rightarrow> bool" where
  "equal_verify msg sg key = (sg = key)"

definition no_bytes :: "'a \<Rightarrow> bytes" where
  "no_bytes x = []"

definition sum_crypto :: "(nat, nat) crypto" where
  "sum_crypto =
     \<lparr>NumForConsensus = threshold, AggregatePubKeys = sum_aggregate,
      MultiSigVerify = equal_verify, SerializeSignature = no_bytes,
      SetBitVector = no_bytes\<rparr>"

definition committee7 :: "(nat \<times> nat) list" where
  "committee7 = [(1, 0), (2, 0), (3, 0), (4, 0), (5, 0), (6, 0), (7, 0)]"

definition block7 :: "nat \<Rightarrow> bool list \<Rightarrow> (nat, nat) block" where
  "block7 sg bitmap =
     \<lparr>header = 0, blockHash = 0, CS1 = 0, B1 = bitmap, CS2 = sg, B2 = bitmap\<rparr>"

section \<open>Transaction blocks\<close>

record TxBlockHeader =
  tx_blockNum :: "64 word"
  dsBlockNum :: "64 word"
  prevHash :: BlockHash
  myHash :: BlockHash

datatype TxBlockValidationMsg = VALID | STALEDSINFO | INVALID

datatype BlockType = BlockType_DS | BlockType_VC | BlockType_FB

text \<open>
  A block link is the tuple read with \<^verbatim>\<open>get<BlockLinkIndex::...>\<close>: the total index,
  the DS index, the kind of block and the block's hash.
\<close>

record BlockLink =
  INDEX :: "64 word"
  DSINDEX :: "64 word"
  BLOCKTYPE :: BlockType
  BLOCKHASH :: BlockHash

text \<open>
  What a call can do other than return: \<^verbatim>\<open>std::vector::at\<close> and
  \<^verbatim>\<open>std::deque::at\<close> throw \<^verbatim>\<open>std::out_of_range\<close>, and \<^verbatim>\<open>back()\<close> of an empty
  vector is undefined.
\<close>

datatype error = out_of_range | undefined_behaviour

text \<open>
  The first lines of \<^verbatim>\<open>CheckTxBlocks\<close>: the DS index the tip is compared with;
  \<open>None\<close> is the early \<^verbatim>\<open>return INVALID\<close>.
\<close>

definition latest_ds_index :: "BlockLink \<Rightarrow> 64 word option" where
  "latest_ds_index latestBlockLink =
     (let latestDSIndex = DSINDEX latestBlockLink in
      if BLOCKTYPE latestBlockLink \<noteq> BlockType_DS
      then (if latestDSIndex = 0 then None else Some (latestDSIndex - 1))
      else Some latestDSIndex)"

text \<open>
  The loop at the end of \<^verbatim>\<open>CheckTxBlocks\<close>. The first number counts the iterations
  that are left (\<^verbatim>\<open>txBlocks.size() - 1 - i\<close>); \<^verbatim>\<open>sIndex\<close> is an \<^verbatim>\<open>unsigned int\<close>,
  so its decrement at 0 wraps to \<open>2 ^ 32 - 1\<close>; \<^verbatim>\<open>txBlocks.at(sIndex)\<close> throws out
  of range. A vector of transaction blocks has fewer than \<open>2 ^ 32\<close> elements, so the
  first value of \<^verbatim>\<open>sIndex\<close>, \<^verbatim>\<open>txBlocks.size() - 2\<close>, is not truncated.
\<close>

fun check_prev_hashes ::
  "(TxBlockHeader, 'sg) block list \<Rightarrow> nat \<Rightarrow> nat \<Rightarrow> BlockHash \<Rightarrow> error + TxBlockValidationMsg" where
  "check_prev_hashes txBlocks 0 sIndex prevBlockHash = Inr VALID"
| "check_prev_hashes txBlocks (Suc n) sIndex prevBlockHash =
     (if length txBlocks \<le> sIndex then Inl out_of_range
      else if prevBlockHash \<noteq> myHash (header (txBlocks ! sIndex)) then Inr INVALID
      else check_prev_hashes txBlocks n
             (if sIndex = 0 then 2 ^ 32 - 1 else sIndex - 1)
             (prevHash (header (txBlocks ! sIndex))))"

definition CheckTxBlocks ::
  "('pk, 'sg, 'z) crypto_scheme \<Rightarrow> (TxBlockHeader \<Rightarrow> bytes) \<Rightarrow> (TxBlockHeader, 'sg) block list \<Rightarrow>
   ('pk \<times> 'peer) list \<Rightarrow> BlockLink \<Rightarrow> error + TxBlockValidationMsg" where
  "CheckTxBlocks c serializeHeader txBlocks dsComm latestBlockLink =
     (case latest_ds_index latestBlockLink of
        None \<Rightarrow> Inr INVALID
      | Some latestDSIndex \<Rightarrow>
          if txBlocks = [] then Inl undefined_behaviour
          else
            (let latestTxBlock = last txBlocks in
             if dsBlockNum (header latestTxBlock) \<noteq> latestDSIndex
             then (if latestDSIndex > dsBlockNum (header latestTxBlock)
                   then Inr INVALID else Inr STALEDSINFO)
             else if \<not> CheckBlockCosignature c serializeHeader latestTxBlock dsComm
             then Inr INVALID
             else if length txBlocks < 2 then Inr VALID
             else check_prev_hashes txBlocks (length txBlocks - 1) (length txBlocks - 2)
                    (prevHash (header latestTxBlock))))"

text \<open>
  The words of the specification: the expected DS epoch of step 1 (\<open>None\<close> is the
  verdict Invalid), and the chain law between adjacent blocks.
\<close>

definition expectedDS :: "BlockLink \<Rightarrow> 64 word option" where
  "expectedDS link =
     (if BLOCKTYPE link = BlockType_DS then Some (DSINDEX link)
      else if DSINDEX link = 0 then None
      else Some (DSINDEX link - 1))"

fun hash_linked :: "(TxBlockHeader, 'sg) block list \<Rightarrow> bool" where
  "hash_linked (b # c # rest) =
     (myHash (header b) = prevHash (header c) \<and> hash_linked (c # rest))"
| "hash_linked _ = True"

section \<open>Directory blocks\<close>

record DSBlockHeader =
  ds_blockNum :: "64 word"
  ds_shardingHash :: ShardingHash
  ds_gasPrice :: "128 word"

record VCBlockHeader =
  vieWChangeDSEpochNo :: "64 word"

record ('pk, 'peer) FallbackBlockHeader =
  fallbackDSEpochNo :: "64 word"
  fb_shardId :: "32 word"
  leaderPubKey :: 'pk
  leaderNetworkInfo :: 'peer

type_synonym ('pk, 'peer) Shard = "('pk \<times> 'peer \<times> 16 word) list"

record ('pk, 'peer, 'sg) FallbackBlockWShardingStructure =
  m_fallbackblock :: "(('pk, 'peer) FallbackBlockHeader, 'sg) block"
  m_shards :: "('pk, 'peer) Shard list"

text \<open>
  A directory block is a \<^verbatim>\<open>boost::variant\<close> of exactly these three alternatives, so the
  last \<^verbatim>\<open>else\<close> branch of the loop of \<^verbatim>\<open>CheckDirBlocks\<close> is never taken.
\<close>

datatype ('pk, 'peer, 'sg) DirBlock =
    DSBlock "(DSBlockHeader, 'sg) block"
  | VCBlock "(VCBlockHeader, 'sg) block"
  | FallbackBlock "('pk, 'peer, 'sg) FallbackBlockWShardingStructure"

text \<open>
  The block-link chain, the DS block chain and the block storage are singletons whose
  code is not part of the validator. The model records every call the validator makes
  to them, in order, as the node's effect log.
\<close>

datatype 'sg effect =
    AddBlockLink "64 word" "64 word" BlockType BlockHash
  | AddBlock "(DSBlockHeader, 'sg) block"
  | PutDSBlock "64 word" bytes
  | PutVCBlock BlockHash bytes
  | PutFallbackBlock BlockHash bytes

text \<open>
  The mode of the directory service; the validator only asks whether it is
  \<^verbatim>\<open>DirectoryService::Mode::IDLE\<close>.
\<close>

datatype Mode = IDLE | PRIMARY_DS | BACKUP_DS

text \<open>
  The state reached through \<^verbatim>\<open>m_mediator\<close>: the current epoch, the node's shard and
  shard count, the mode of the directory service, the last block of the DS chain
  (\<^verbatim>\<open>m_dsBlockChain.GetLastBlock()\<close>), and the effect log.
\<close>

record 'sg mediator =
  m_currentEpochNum :: "64 word"
  GetShardId :: "32 word"
  getNumShards :: "32 word"
  m_mode :: Mode
  lastDSBlock :: "(DSBlockHeader, 'sg) block"
  effects :: "'sg effect list"

text \<open>
  Modelled from the spec: \<^verbatim>\<open>DSBlockChain::AddBlock\<close> is not among the sources. The
  specification's chain interface is \<open>latestDSBlock()\<close> and \<open>appendDSBlock(ds)\<close>: an
  appended block is the latest one. Every call is appended to the effect log.
\<close>

fun perform :: "'sg effect \<Rightarrow> 'sg mediator \<Rightarrow> 'sg mediator" where
  "perform (AddBlock dsblock) m = m\<lparr>lastDSBlock := dsblock, effects := effects m @ [AddBlock dsblock]\<rparr>"
| "perform eff m = m\<lparr>effects := effects m @ [eff]\<rparr>"

text \<open>
  The collaborators of \<^verbatim>\<open>CheckDirBlocks\<close>, added to those of the co-signature check:
  the serialisation of each header and block, \<^verbatim>\<open>Messenger::GetShardingStructureHash\<close>
  for the configured \<^verbatim>\<open>SHARDINGSTRUCTURE_VERSION\<close> (\<open>None\<close> when it returns false), and
  the three committee updates of the node.
\<close>

record ('pk, 'sg, 'peer) dir_env = "('pk, 'sg) crypto" +
  SerializeDSBlockHeader :: "DSBlockHeader \<Rightarrow> bytes"
  SerializeVCBlockHeader :: "VCBlockHeader \<Rightarrow> bytes"
  SerializeFallbackBlockHeader :: "('pk, 'peer) FallbackBlockHeader \<Rightarrow> bytes"
  SerializeDSBlock :: "(DSBlockHeader, 'sg) block \<Rightarrow> bytes"
  SerializeVCBlock :: "(VCBlockHeader, 'sg) block \<Rightarrow> bytes"
  SerializeFallbackBlockWShardingStructure ::
    "('pk, 'peer, 'sg) FallbackBlockWShardingStructure \<Rightarrow> bytes"
  GetShardingStructureHash :: "('pk, 'peer) Shard list \<Rightarrow> ShardingHash option"
  UpdateDSCommiteeComposition ::
    "('pk \<times> 'peer) list \<Rightarrow> (DSBlockHeader, 'sg) block \<Rightarrow> ('pk \<times> 'peer) list"
  UpdateRetrieveDSCommiteeCompositionAfterVC ::
    "(VCBlockHeader, 'sg) block \<Rightarrow> ('pk \<times> 'peer) list \<Rightarrow> ('pk \<times> 'peer) list"
  UpdateDSCommitteeAfterFallback ::
    "32 word \<Rightarrow> 'pk \<Rightarrow> 'peer \<Rightarrow> ('pk \<times> 'peer) list \<Rightarrow> ('pk, 'peer) Shard list \<Rightarrow>
     ('pk \<times> 'peer) list"

text \<open>The local variables of \<^verbatim>\<open>CheckDirBlocks\<close> and the node's state.\<close>

record ('pk, 'sg, 'peer) walk =
  prevdsblocknum :: "64 word"
  totalIndex :: "64 word"
  prevShardingHash :: ShardingHash
  mutable_ds_comm :: "('pk \<times> 'peer) list"
  med :: "'sg mediator"

text \<open>
  One iteration of the loop of \<^verbatim>\<open>CheckDirBlocks\<close>: the block is accepted and the
  state updated, or it is rejected (\<^verbatim>\<open>ret = false; break\<close>, before any update), or
  \<^verbatim>\<open>shards.at(shard_id)\<close> throws (before any update, too).
\<close>

datatype 'a step = Accepted 'a | Rejected | Threw error

fun dir_step ::
  "('pk, 'sg, 'peer, 'z) dir_env_scheme \<Rightarrow> ('pk, 'sg, 'peer) walk \<Rightarrow> ('pk, 'peer, 'sg) DirBlock \<Rightarrow>
   ('pk, 'sg, 'peer) walk step" where
  "dir_step e w (DSBlock dsblock) =
     (if ds_blockNum (header dsblock) \<noteq> prevdsblocknum w + 1 then Rejected
      else if \<not> CheckBlockCosignature e (SerializeDSBlockHeader e) dsblock (mutable_ds_comm w)
      then Rejected
      else
        (let prevdsblocknum' = prevdsblocknum w + 1;
             prevShardingHash' = ds_shardingHash (header dsblock);
             m1 = perform (AddBlockLink (totalIndex w) prevdsblocknum' BlockType_DS
                             (blockHash dsblock)) (med w);
             m2 = perform (AddBlock dsblock) m1;
             m3 = perform (PutDSBlock (ds_blockNum (header dsblock)) (SerializeDSBlock e dsblock)) m2;
             comm' = UpdateDSCommiteeComposition e (mutable_ds_comm w) dsblock
         in Accepted
              \<lparr>prevdsblocknum = prevdsblocknum', totalIndex = totalIndex w + 1,
               prevShardingHash = prevShardingHash', mutable_ds_comm = comm', med = m3\<rparr>))"
| "dir_step e w (VCBlock vcblock) =
     (if vieWChangeDSEpochNo (header vcblock) \<noteq> prevdsblocknum w + 1 then Rejected
      else if \<not> CheckBlockCosignature e (SerializeVCBlockHeader e) vcblock (mutable_ds_comm w)
      then Rejected
      else
        (let comm' = UpdateRetrieveDSCommiteeCompositionAfterVC e vcblock (mutable_ds_comm w);
             m1 = perform (AddBlockLink (totalIndex w) (prevdsblocknum w + 1) BlockType_VC
                             (blockHash vcblock)) (med w);
             m2 = perform (PutVCBlock (blockHash vcblock) (SerializeVCBlock e vcblock)) m1
         in Accepted
              \<lparr>prevdsblocknum = prevdsblocknum w, totalIndex = totalIndex w + 1,
               prevShardingHash = prevShardingHash w, mutable_ds_comm = comm', med = m2\<rparr>))"
| "dir_step e w (FallbackBlock fallbackwshardingstructure) =
     (let fallbackblock = m_fallbackblock fallbackwshardingstructure;
          shards = m_shards fallbackwshardingstructure
      in
      if fallbackDSEpochNo (header fallbackblock) \<noteq> prevdsblocknum w + 1 then Rejected
      else
        (case GetShardingStructureHash e shards of
           None \<Rightarrow> Rejected
         | Some shardinghash \<Rightarrow>
             if shardinghash \<noteq> prevShardingHash w then Rejected
             else
               (let shard_id = fb_shardId (header fallbackblock) in
                if length shards \<le> unat shard_id then Threw out_of_range
                else if \<not> CheckBlockCosignature e (SerializeFallbackBlockHeader e) fallbackblock
                             (shards ! unat shard_id)
                then Rejected
                else
                  (let comm' = UpdateDSCommitteeAfterFallback e shard_id
                                 (leaderPubKey (header fallbackblock))
                                 (leaderNetworkInfo (header fallbackblock))
                                 (mutable_ds_comm w) shards;
                       m1 = perform (AddBlockLink (totalIndex w) (prevdsblocknum w + 1) BlockType_FB
                                       (blockHash fallbackblock)) (med w);
                       m2 = perform (PutFallbackBlock (blockHash fallbackblock)
                                       (SerializeFallbackBlockWShardingStructure e
                                          fallbackwshardingstructure)) m1
                   in Accepted
                        \<lparr>prevdsblocknum = prevdsblocknum w, totalIndex = totalIndex w + 1,
                         prevShardingHash = prevShardingHash w, mutable_ds_comm = comm',
                         med = m2\<rparr>))))"

text \<open>
  The loop: it goes on while blocks are accepted and leaves at the first block that is
  not, with the state as the accepted blocks made it.
\<close>

fun dir_loop ::
  "('pk, 'sg, 'peer, 'z) dir_env_scheme \<Rightarrow> ('pk, 'sg, 'peer) walk \<Rightarrow>
   ('pk, 'peer, 'sg) DirBlock list \<Rightarrow> (error + bool) \<times> ('pk, 'sg, 'peer) walk" where
  "dir_loop e w [] = (Inr True, w)"
| "dir_loop e w (dirBlock # rest) =
     (case dir_step e w dirBlock of
        Accepted w' \<Rightarrow> dir_loop e w' rest
      | Rejected \<Rightarrow> (Inr False, w)
      | Threw err \<Rightarrow> (Inl err, w))"

definition init_walk ::
  "'sg mediator \<Rightarrow> ('pk \<times> 'peer) list \<Rightarrow> 64 word \<Rightarrow> ('pk, 'sg, 'peer) walk" where
  "init_walk m initDsComm index_num =
     \<lparr>prevdsblocknum = ds_blockNum (header (lastDSBlock m)), totalIndex = index_num,
      prevShardingHash = ds_shardingHash (header (lastDSBlock m)),
      mutable_ds_comm = initDsComm, med = m\<rparr>"

text \<open>
  \<^verbatim>\<open>CheckDirBlocks\<close> returns its verdict, the value of the output parameter
  \<^verbatim>\<open>newDSComm\<close> (its last argument is the value the caller's variable had before the
  call: an exception leaves it there) and the node's state.
\<close>

definition CheckDirBlocks ::
  "('pk, 'sg, 'peer, 'z) dir_env_scheme \<Rightarrow> 'sg mediator \<Rightarrow> ('pk, 'peer, 'sg) DirBlock list \<Rightarrow>
   ('pk \<times> 'peer) list \<Rightarrow> 64 word \<Rightarrow> ('pk \<times> 'peer) list \<Rightarrow>
   (error + bool) \<times> ('pk \<times> 'peer) list \<times> 'sg mediator" where
  "CheckDirBlocks e m dirBlocks initDsComm index_num newDSComm =
     (case dir_loop e (init_walk m initDsComm index_num) dirBlocks of
        (Inr ret, w) \<Rightarrow> (Inr ret, mutable_ds_comm w, med w)
      | (Inl err, w) \<Rightarrow> (Inl err, newDSComm, med w))"

text \<open>
  The state after a run of blocks that are all accepted (\<open>None\<close> when one of them is
  not).
\<close>

fun accept_all ::
  "('pk, 'sg, 'peer, 'z) dir_env_scheme \<Rightarrow> ('pk, 'sg, 'peer) walk \<Rightarrow>
   ('pk, 'peer, 'sg) DirBlock list \<Rightarrow> ('pk, 'sg, 'peer) walk option" where
  "accept_all e w [] = Some w"
| "accept_all e w (dirBlock # rest) =
     (case dir_step e w dirBlock of Accepted w' \<Rightarrow> accept_all e w' rest | _ \<Rightarrow> None)"

text \<open>
  The words of the specification: a block fails a check when its DS number is not the
  next one (a DS block), when its DS epoch is not the next one (a VC or fallback
  block), when the hash of a fallback block's sharding structure is not the tracked
  sharding hash (or cannot be computed), or when its co-signature fails: against the
  DS committee for a DS or VC block, against the shard named by the header for a
  fallback block.
\<close>

fun fails_check ::
  "('pk, 'sg, 'peer, 'z) dir_env_scheme \<Rightarrow> ('pk, 'sg, 'peer) walk \<Rightarrow> ('pk, 'peer, 'sg) DirBlock \<Rightarrow> bool" where
  "fails_check e w (DSBlock dsblock) =
     (ds_blockNum (header dsblock) \<noteq> prevdsblocknum w + 1 \<or>
      \<not> CheckBlockCosignature e (SerializeDSBlockHeader e) dsblock (mutable_ds_comm w))"
| "fails_check e w (VCBlock vcblock) =
     (vieWChangeDSEpochNo (header vcblock) \<noteq> prevdsblocknum w + 1 \<or>
      \<not> CheckBlockCosignature e (SerializeVCBlockHeader e) vcblock (mutable_ds_comm w))"
| "fails_check e w (FallbackBlock f) =
     (fallbackDSEpochNo (header (m_fallbackblock f)) \<noteq> prevdsblocknum w + 1 \<or>
      GetShardingStructureHash e (m_shards f) \<noteq> Some (prevShardingHash w) \<or>
      (unat (fb_shardId (header (m_fallbackblock f))) < length (m_shards f) \<and>
       \<not> CheckBlockCosignature e (SerializeFallbackBlockHeader e) (m_fallbackblock f)
           (m_shards f ! unat (fb_shardId (header (m_fallbackblock f))))))"

text \<open>
  The third way out of an iteration: a fallback block passes the epoch and sharding-hash
  checks and its header names a shard that its sharding structure does not have, so
  that \<^verbatim>\<open>shards.at(shard_id)\<close> throws.
\<close>

fun shard_missing ::
  "('pk, 'sg, 'peer, 'z) dir_env_scheme \<Rightarrow> ('pk, 'sg, 'peer) walk \<Rightarrow> ('pk, 'peer, 'sg) DirBlock \<Rightarrow> bool" where
  "shard_missing e w (FallbackBlock f) =
     (fallbackDSEpochNo (header (m_fallbackblock f)) = prevdsblocknum w + 1 \<and>
      GetShardingStructureHash e (m_shards f) = Some (prevShardingHash w) \<and>
      length (m_shards f) \<le> unat (fb_shardId (header (m_fallbackblock f))))"
| "shard_missing e w _ = False"

section \<open>Transactions\<close>

record ('pk, 'sg) Transaction =
  version :: "32 word"
  senderPubKey :: 'pk
  toAddr :: Address
  amount :: "128 word"
  gasPrice :: "128 word"
  data :: bytes
  signature :: 'sg

text \<open>
  Modelled from the spec: \<^verbatim>\<open>TransactionReceipt::SetEpochNum\<close> is not among the sources.
  The receipt's epoch is stamped with the given epoch number; whatever else a receipt
  holds is left as it is.
\<close>

record TransactionReceipt =
  epoch_num :: "64 word"

definition SetEpochNum :: "64 word \<Rightarrow> 'r TransactionReceipt_scheme \<Rightarrow> 'r TransactionReceipt_scheme" where
  "SetEpochNum epochNum receipt = receipt\<lparr>epoch_num := epochNum\<rparr>"

text \<open>
  Modelled from the spec: the configuration constant \<^verbatim>\<open>ACC_ADDR_SIZE\<close> is 20, and the
  null address (\<^verbatim>\<open>Address()\<close>, \<^verbatim>\<open>NullAddress\<close>) is the all-zero 20-byte address.
\<close>

definition ACC_ADDR_SIZE :: nat where
  "ACC_ADDR_SIZE = 20"

definition NullAddress :: Address where
  "NullAddress = replicate ACC_ADDR_SIZE 0"

text \<open>
  The configuration and the collaborators of the transaction checks: the role flag and
  the chain identifier, \<^verbatim>\<open>DataConversion::UnpackA\<close>, the serialisation of a public key,
  SHA-256, \<^verbatim>\<open>Transaction::GetShardIndex\<close>, the serialisation of a transaction's core
  fields, Schnorr verification, and the account store (a state of type \<open>'st\<close>) with its
  temporary update, which may change the receipt and the store.
\<close>

record ('pk, 'sg, 'st, 'r) tx_env =
  LOOKUP_NODE_MODE :: bool
  CHAIN_ID :: "16 word"
  UnpackA :: "32 word \<Rightarrow> 16 word"
  SerializePubKey :: "'pk \<Rightarrow> bytes"
  SHA256 :: "bytes \<Rightarrow> bytes"
  GetShardIndex :: "Address \<Rightarrow> 32 word \<Rightarrow> 32 word"
  SerializeCoreFields :: "('pk, 'sg) Transaction \<Rightarrow> bytes"
  SchnorrVerify :: "bytes \<Rightarrow> 'sg \<Rightarrow> 'pk \<Rightarrow> bool"
  IsAccountExist :: "'st \<Rightarrow> Address \<Rightarrow> bool"
  GetBalance :: "'st \<Rightarrow> Address \<Rightarrow> 128 word"
  UpdateAccountsTemp ::
    "64 word \<Rightarrow> 32 word \<Rightarrow> bool \<Rightarrow> ('pk, 'sg) Transaction \<Rightarrow> 'r TransactionReceipt_scheme \<Rightarrow> 'st \<Rightarrow>
     bool \<times> 'r TransactionReceipt_scheme \<times> 'st"

text \<open>
  \<^verbatim>\<open>Account::GetAddressFromPublicKey\<close>: the last \<^verbatim>\<open>ACC_ADDR_SIZE\<close> bytes of the SHA-256
  of the serialised key (a digest has 32 bytes).
\<close>

definition GetAddressFromPublicKey :: "('pk, 'sg, 'st, 'r, 'z) tx_env_scheme \<Rightarrow> 'pk \<Rightarrow> Address" where
  "GetAddressFromPublicKey e pubKey =
     (let vec = SerializePubKey e pubKey;
          output = SHA256 e vec
      in drop (length output - ACC_ADDR_SIZE) output)"

definition VerifyTransaction :: "('pk, 'sg, 'st, 'r, 'z) tx_env_scheme \<Rightarrow> ('pk, 'sg) Transaction \<Rightarrow> bool" where
  "VerifyTransaction e tran =
     (let txnData = SerializeCoreFields e tran
      in SchnorrVerify e txnData (signature tran) (senderPubKey tran))"

text \<open>
  \<^verbatim>\<open>CheckCreatedTransaction\<close> returns its verdict, the receipt and the account store as
  the call leaves them.
\<close>

definition CheckCreatedTransaction ::
  "('pk, 'sg, 'st, 'r, 'z) tx_env_scheme \<Rightarrow> 'sg2 mediator \<Rightarrow> 'st \<Rightarrow> ('pk, 'sg) Transaction \<Rightarrow>
   'r TransactionReceipt_scheme \<Rightarrow> bool \<times> 'r TransactionReceipt_scheme \<times> 'st" where
  "CheckCreatedTransaction e m store tx receipt =
     (if LOOKUP_NODE_MODE e then (True, receipt, store)
      else if UnpackA e (version tx) \<noteq> CHAIN_ID e then (False, receipt, store)
      else
        (let fromAddr = GetAddressFromPublicKey e (senderPubKey tx) in
         if fromAddr = NullAddress then (False, receipt, store)
         else if \<not> IsAccountExist e store fromAddr then (False, receipt, store)
         else if GetBalance e store fromAddr < amount tx then (False, receipt, store)
         else
           (let receipt' = SetEpochNum (m_currentEpochNum m) receipt
            in UpdateAccountsTemp e (m_currentEpochNum m) (getNumShards m)
                 (m_mode m \<noteq> IDLE) tx receipt' store)))"

text \<open>
  The block of \<^verbatim>\<open>CheckCreatedTransactionFromLookup\<close> that runs when the directory
  service is idle; \<open>False\<close> is its \<^verbatim>\<open>return false\<close>, \<open>True\<close> is falling through.
\<close>

definition shard_checks ::
  "('pk, 'sg, 'st, 'r, 'z) tx_env_scheme \<Rightarrow> 32 word \<Rightarrow> 32 word \<Rightarrow> Address \<Rightarrow> ('pk, 'sg) Transaction \<Rightarrow> bool" where
  "shard_checks e shardId numShards fromAddr tx =
     (let correct_shard_from = GetShardIndex e fromAddr numShards in
      if correct_shard_from \<noteq> shardId then False
      else if length (data tx) > 0 \<and> toAddr tx \<noteq> NullAddress
      then (let correct_shard_to = GetShardIndex e (toAddr tx) numShards
            in if correct_shard_to \<noteq> correct_shard_from then False else True)
      else True)"

definition CheckCreatedTransactionFromLookup ::
  "('pk, 'sg, 'st, 'r, 'z) tx_env_scheme \<Rightarrow> 'sg2 mediator \<Rightarrow> 'st \<Rightarrow> ('pk, 'sg) Transaction \<Rightarrow> bool" where
  "CheckCreatedTransactionFromLookup e m store tx =
     (if LOOKUP_NODE_MODE e then True
      else if UnpackA e (version tx) \<noteq> CHAIN_ID e then False
      else
        (let fromAddr = GetAddressFromPublicKey e (senderPubKey tx);
             shardId = GetShardId m;
             numShards = getNumShards m
         in
         if fromAddr = NullAddress then False
         else if m_mode m = IDLE \<and> \<not> shard_checks e shardId numShards fromAddr tx then False
         else if gasPrice tx < ds_gasPrice (header (lastDSBlock m)) then False
         else if \<not> VerifyTransaction e tx then False
         else if \<not> IsAccountExist e store fromAddr then False
         else if GetBalance e store fromAddr < amount tx then False
         else True))"

section \<open>Concrete blocks for evaluation\<close>

text \<open>
  Transaction blocks and block links over the concrete collaborators above: a block is
  given by its DS block number, its previous hash, its own hash, its second-round
  signature and its bitmap.
\<close>

definition tx_block :: "64 word \<Rightarrow> BlockHash \<Rightarrow> BlockHash \<Rightarrow> nat \<Rightarrow> bool list \<Rightarrow> (TxBlockHeader, nat) block" where
  "tx_block ds prev my sg bitmap =
     \<lparr>header = \<lparr>tx_blockNum = 0, dsBlockNum = ds, prevHash = prev, myHash = my\<rparr>,
      blockHash = my, CS1 = 0, B1 = bitmap, CS2 = sg, B2 = bitmap\<rparr>"

definition block_link :: "64 word \<Rightarrow> BlockType \<Rightarrow> BlockLink" where
  "block_link ds kind = \<lparr>INDEX = 0, DSINDEX = ds, BLOCKTYPE = kind, BLOCKHASH = 0\<rparr>"

definition tip_bitmap :: "bool list" where
  "tip_bitmap = [True, True, True, True, True, True, False]"

definition chain3 :: "(TxBlockHeader, nat) block list" where
  "chain3 = [tx_block 4 10 11 0 [], tx_block 4 11 12 0 [], tx_block 4 12 13 21 tip_bitmap]"

text \<open>
  Directory blocks, a node whose DS chain ends with block 5, and collaborators of the
  directory walk: the hash of a sharding structure is its number of shards, a DS or VC
  block rotates the committee, and a fallback block puts the leader in front.
\<close>

definition shard_count_hash :: "(nat, nat) Shard list \<Rightarrow> ShardingHash option" where
  "shard_count_hash shards = (if shards = [] then None else Some (of_nat (length shards)))"

definition rotate_committee :: "(nat \<times> nat) list \<Rightarrow> 'b \<Rightarrow> (nat \<times> nat) list" where
  "rotate_committee comm blk = rotate1 comm"

definition rotate_committee_vc :: "'b \<Rightarrow> (nat \<times> nat) list \<Rightarrow> (nat \<times> nat) list" where
  "rotate_committee_vc blk comm = rotate1 comm"

definition promote_leader ::
  "32 word \<Rightarrow> nat \<Rightarrow> nat \<Rightarrow> (nat \<times> nat) list \<Rightarrow> (nat, nat) Shard list \<Rightarrow> (nat \<times> nat) list" where
  "promote_leader shard_id leaderKey leaderPeer comm shards = (leaderKey, leaderPeer) # butlast comm"

definition sum_dir_env :: "(nat, nat, nat) dir_env" where
  "sum_dir_env =
     \<lparr>NumForConsensus = threshold, AggregatePubKeys = sum_aggregate,
      MultiSigVerify = equal_verify, SerializeSignature = no_bytes, SetBitVector = no_bytes,
      SerializeDSBlockHeader = no_bytes, SerializeVCBlockHeader = no_bytes,
      SerializeFallbackBlockHeader = no_bytes, SerializeDSBlock = no_bytes,
      SerializeVCBlock = no_bytes, SerializeFallbackBlockWShardingStructure = no_bytes,
      GetShardingStructureHash = shard_count_hash,
      UpdateDSCommiteeComposition = rotate_committee,
      UpdateRetrieveDSCommiteeCompositionAfterVC = rotate_committee_vc,
      UpdateDSCommitteeAfterFallback = promote_leader\<rparr>"

definition ds_block :: "64 word \<Rightarrow> ShardingHash \<Rightarrow> BlockHash \<Rightarrow> nat \<Rightarrow> bool list \<Rightarrow> (DSBlockHeader, nat) block" where
  "ds_block num sh h sg bitmap =
     \<lparr>header = \<lparr>ds_blockNum = num, ds_shardingHash = sh, ds_gasPrice = 0\<rparr>,
      blockHash = h, CS1 = 0, B1 = bitmap, CS2 = sg, B2 = bitmap\<rparr>"

definition vc_block :: "64 word \<Rightarrow> BlockHash \<Rightarrow> nat \<Rightarrow> bool list \<Rightarrow> (VCBlockHeader, nat) block" where
  "vc_block epoch h sg bitmap =
     \<lparr>header = \<lparr>vieWChangeDSEpochNo = epoch\<rparr>,
      blockHash = h, CS1 = 0, B1 = bitmap, CS2 = sg, B2 = bitmap\<rparr>"

definition shard7 :: "(nat, nat) Shard" where
  "shard7 = [(1, 0, 0), (2, 0, 0), (3, 0, 0), (4, 0, 0), (5, 0, 0), (6, 0, 0), (7, 0, 0)]"

definition fallback_block ::
  "64 word \<Rightarrow> 32 word \<Rightarrow> (nat, nat) Shard list \<Rightarrow> (nat, nat, nat) FallbackBlockWShardingStructure" where
  "fallback_block epoch shard_id shards =
     \<lparr>m_fallbackblock =
        \<lparr>header = \<lparr>fallbackDSEpochNo = epoch, fb_shardId = shard_id, leaderPubKey = 1,
                    leaderNetworkInfo = 0\<rparr>,
         blockHash = 30, CS1 = 0, B1 = tip_bitmap, CS2 = 21, B2 = tip_bitmap\<rparr>,
      m_shards = shards\<rparr>"

definition node5 :: "nat mediator" where
  "node5 =
     \<lparr>m_currentEpochNum = 500, GetShardId = 0, getNumShards = 2, m_mode = IDLE,
      lastDSBlock = ds_block 5 2 15 0 [], effects = []\<rparr>"

definition node6 :: "nat mediator" where
  "node6 =
     \<lparr>m_currentEpochNum = 500, GetShardId = 0, getNumShards = 2, m_mode = IDLE,
      lastDSBlock = ds_block 6 2 16 21 tip_bitmap,
      effects = [AddBlockLink 0 6 BlockType_DS 16, AddBlock (ds_block 6 2 16 21 tip_bitmap),
                 PutDSBlock 6 []]\<rparr>"

definition walk6 :: "(nat, nat, nat) walk" where
  "walk6 =
     \<lparr>prevdsblocknum = 6, totalIndex = 1, prevShardingHash = 2,
      mutable_ds_comm = rotate1 committee7, med = node6\<rparr>"

definition walk5 :: "(nat \<times> nat) list \<Rightarrow> (nat, nat, nat) walk" where
  "walk5 comm =
     \<lparr>prevdsblocknum = 5, totalIndex = 0, prevShardingHash = 2,
      mutable_ds_comm = comm, med = node5\<rparr>"

definition walk5_vc :: "(nat, nat, nat) walk" where
  "walk5_vc =
     \<lparr>prevdsblocknum = 5, totalIndex = 1, prevShardingHash = 2,
      mutable_ds_comm = rotate1 committee7,
      med = node5\<lparr>effects := [AddBlockLink 0 6 BlockType_VC 40, PutVCBlock 40 []]\<rparr>\<rparr>"

definition walk5_fb :: "(nat, nat, nat) walk" where
  "walk5_fb =
     \<lparr>prevdsblocknum = 5, totalIndex = 1, prevShardingHash = 2,
      mutable_ds_comm = [(1, 0)],
      med = node5\<lparr>effects := [AddBlockLink 0 6 BlockType_FB 30, PutFallbackBlock 30 []]\<rparr>\<rparr>"

text \<open>
  Collaborators of the transaction checks: a key is a number and its serialisation is
  one byte, the digest pads it to 32 bytes, the shard of an address is its last byte
  modulo the number of shards, the chain identifier is the upper half of the version, a
  signature verifies when it equals the key, the account store is an association list,
  and the temporary update rejects every transaction and leaves the receipt and the
  store as they are.
\<close>

definition key_bytes :: "nat \<Rightarrow> bytes" where
  "key_bytes k = [of_nat k]"

definition pad_digest :: "bytes \<Rightarrow> bytes" where
  "pad_digest bs = replicate 31 0 @ bs"

definition key_address :: "nat \<Rightarrow> Address" where
  "key_address k = replicate 19 0 @ [of_nat k]"

definition low_byte_shard :: "Address \<Rightarrow> 32 word \<Rightarrow> 32 word" where
  "low_byte_shard addr n = (if n = 0 then 0 else ucast (last addr) mod n)"

definition high_half :: "32 word \<Rightarrow> 16 word" where
  "high_half x = ucast (drop_bit 16 x)"

definition equal_schnorr :: "bytes \<Rightarrow> nat \<Rightarrow> nat \<Rightarrow> bool" where
  "equal_schnorr msg sg key = (sg = key)"

definition account_exists :: "(Address \<times> 128 word) list \<Rightarrow> Address \<Rightarrow> bool" where
  "account_exists store addr = (map_of store addr \<noteq> None)"

definition account_balance :: "(Address \<times> 128 word) list \<Rightarrow> Address \<Rightarrow> 128 word" where
  "account_balance store addr = (case map_of store addr of None \<Rightarrow> 0 | Some b \<Rightarrow> b)"

definition reject_update ::
  "64 word \<Rightarrow> 32 word \<Rightarrow> bool \<Rightarrow> (nat, nat) Transaction \<Rightarrow> TransactionReceipt \<Rightarrow>
   (Address \<times> 128 word) list \<Rightarrow> bool \<times> TransactionReceipt \<times> (Address \<times> 128 word) list" where
  "reject_update epoch numShards isDS tx receipt store = (False, receipt, store)"

definition shard_env :: "bool \<Rightarrow> (nat, nat, (Address \<times> 128 word) list, unit) tx_env" where
  "shard_env lookup =
     \<lparr>LOOKUP_NODE_MODE = lookup, CHAIN_ID = 1, UnpackA = high_half,
      SerializePubKey = key_bytes, SHA256 = pad_digest, GetShardIndex = low_byte_shard,
      SerializeCoreFields = no_bytes, SchnorrVerify = equal_schnorr,
      IsAccountExist = account_exists, GetBalance = account_balance,
      UpdateAccountsTemp = reject_update\<rparr>"

definition transfer :: "32 word \<Rightarrow> nat \<Rightarrow> Address \<Rightarrow> bytes \<Rightarrow> (nat, nat) Transaction" where
  "transfer v sender to payload =
     \<lparr>version = v, senderPubKey = sender, toAddr = to, amount = 10, gasPrice = 1,
      data = payload, signature = sender\<rparr>"

definition accounts :: "(Address \<times> 128 word) list" where
  "accounts = [(key_address 3, 100), (key_address 4, 100)]"

section \<open>Properties of the co-signature check\<close>

text \<open>The loop computes the selected keys and their number.\<close>

lemma collect_keys_zip:
  "index + length comm \<le> length bitmap \<Longrightarrow>
   collect_keys bitmap comm index count keys =
     (count + length (selected_keys (drop index bitmap) comm),
      keys @ selected_keys (drop index bitmap) comm)"
proof (induction comm arbitrary: index count keys)
  case Nil
  then show ?case by (simp add: selected_keys_def)
next
  case (Cons kv rest)
  from Cons.prems have lt: "index < length bitmap" by simp
  then have d: "drop index bitmap = bitmap ! index # drop (Suc index) bitmap"
    by (simp add: Cons_nth_drop_Suc)
  from Cons.prems have le: "Suc index + length rest \<le> length bitmap" by simp
  show ?case
    using Cons.IH [OF le] by (simp add: d selected_keys_def)
qed

lemma length_selected_keys:
  "length comm = length bitmap \<Longrightarrow> length (selected_keys bitmap comm) = count_set bitmap"
proof (induction bitmap arbitrary: comm)
  case Nil
  then show ?case by (simp add: selected_keys_def count_set_def)
next
  case (Cons b bs)
  then obtain kv rest where c: "comm = kv # rest" by (cases comm) auto
  with Cons.prems have "length rest = length bs" by simp
  from Cons.IH [OF this] show ?case
    by (simp add: c selected_keys_def count_set_def)
qed

lemma CheckBlockCosignature_iff:
  "CheckBlockCosignature c ser blk comm \<longleftrightarrow>
     length comm = length (B2 blk) \<and>
     count_set (B2 blk) = NumForConsensus c (length (B2 blk)) \<and>
     (\<exists>aggregatedKey.
        AggregatePubKeys c (selected_keys (B2 blk) comm) = Some aggregatedKey \<and>
        MultiSigVerify c (cosig_message c ser blk) (CS2 blk) aggregatedKey)"
proof (cases "length comm = length (B2 blk)")
  case False
  then show ?thesis by (simp add: CheckBlockCosignature_def)
next
  case True
  then have ck: "collect_keys (B2 blk) comm 0 0 [] =
      (count_set (B2 blk), selected_keys (B2 blk) comm)"
    by (simp add: collect_keys_zip length_selected_keys)
  show ?thesis
    by (simp add: CheckBlockCosignature_def True ck cosig_message_def split: option.split)
qed

lemma count_set_clear:
  "i < length bitmap \<Longrightarrow> bitmap ! i \<Longrightarrow> count_set bitmap = count_set (bitmap[i := False]) + 1"
proof (induction bitmap arbitrary: i)
  case Nil
  then show ?case by simp
next
  case (Cons b bs)
  show ?case
  proof (cases i)
    case 0
    with Cons.prems show ?thesis by (simp add: count_set_def)
  next
    case (Suc j)
    with Cons.prems have "j < length bs" "bs ! j" by simp_all
    from Cons.IH [OF this] show ?thesis by (simp add: Suc count_set_def)
  qed
qed

text \<open>
  C1 (as amended). For every block and committee roster, \<^verbatim>\<open>CheckBlockCosignature\<close>
  returns true if and only if the roster has as many members as \<open>B2\<close> has bits, the
  number of set positions of \<open>B2\<close> is exactly \<open>NumForConsensus\<close> of the bitmap's length
  (the code compares with \<^verbatim>\<open>!=\<close>), the keys at the set positions aggregate, and the
  multi-signature check of \<open>CS2\<close> over the buffer
  \<open>serialize(header) @ serialize(CS1) @ encode_bitmap(B1)\<close> against that aggregate
  succeeds.
\<close>

theorem cosignature_verdict:
  "CheckBlockCosignature c ser blk comm \<longleftrightarrow>
     length comm = length (B2 blk) \<and>
     count_set (B2 blk) = NumForConsensus c (length (B2 blk)) \<and>
     (\<exists>aggregatedKey.
        AggregatePubKeys c (selected_keys (B2 blk) comm) = Some aggregatedKey \<and>
        MultiSigVerify c (cosig_message c ser blk) (CS2 blk) aggregatedKey)"
  by (rule CheckBlockCosignature_iff)

text \<open>
  C1 as stated fails: with a committee of seven, the threshold is six; a block whose
  \<open>B2\<close> has all seven bits set and whose \<open>CS2\<close> verifies against the aggregate of the
  seven keys meets the three conditions of the claim (with "at least"), and the check
  rejects it.
\<close>

theorem cosignature_above_threshold_rejected:
  "length committee7 = length (B2 (block7 28 [True, True, True, True, True, True, True])) \<and>
   NumForConsensus sum_crypto (length (B2 (block7 28 [True, True, True, True, True, True, True])))
     \<le> count_set (B2 (block7 28 [True, True, True, True, True, True, True])) \<and>
   AggregatePubKeys sum_crypto
     (selected_keys (B2 (block7 28 [True, True, True, True, True, True, True])) committee7) = Some 28 \<and>
   MultiSigVerify sum_crypto
     (cosig_message sum_crypto no_bytes (block7 28 [True, True, True, True, True, True, True]))
     (CS2 (block7 28 [True, True, True, True, True, True, True])) 28 \<and>
   \<not> CheckBlockCosignature sum_crypto no_bytes
       (block7 28 [True, True, True, True, True, True, True]) committee7"
  by (simp add: CheckBlockCosignature_iff committee7_def block7_def sum_crypto_def threshold_def
      count_set_def selected_keys_def sum_aggregate_def equal_verify_def)

text \<open>
  C2 (as amended). Clearing one set bit of \<open>B2\<close> (whatever \<open>CS2\<close> becomes) turns an
  accepting verdict of the co-signature check into a rejecting one; and the cleared
  block is accepted only if \<open>B2\<close> had exactly \<open>NumForConsensus + 1\<close> set bits, in which
  case the block was rejected before the bit was cleared.
\<close>

theorem clearing_a_bit:
  assumes "i < length (B2 blk)" and "B2 blk ! i"
  shows "(CheckBlockCosignature c ser blk comm \<longrightarrow>
            \<not> CheckBlockCosignature c ser (blk\<lparr>B2 := (B2 blk)[i := False], CS2 := sg'\<rparr>) comm) \<and>
         (CheckBlockCosignature c ser (blk\<lparr>B2 := (B2 blk)[i := False], CS2 := sg'\<rparr>) comm \<longrightarrow>
            count_set (B2 blk) = NumForConsensus c (length (B2 blk)) + 1 \<and>
            \<not> CheckBlockCosignature c ser blk comm)"
  using count_set_clear [OF assms] by (auto simp add: CheckBlockCosignature_iff)

theorem clearing_a_bit_witness:
  "6 < length (B2 (block7 21 [True, True, True, True, True, True, True])) \<and>
   B2 (block7 21 [True, True, True, True, True, True, True]) ! 6 \<and>
   CheckBlockCosignature sum_crypto no_bytes
     ((block7 21 [True, True, True, True, True, True, True])
        \<lparr>B2 := (B2 (block7 21 [True, True, True, True, True, True, True]))[6 := False], CS2 := 21\<rparr>)
     committee7 \<and>
   count_set (B2 (block7 21 [True, True, True, True, True, True, True])) =
     NumForConsensus sum_crypto (length (B2 (block7 21 [True, True, True, True, True, True, True]))) + 1 \<and>
   \<not> CheckBlockCosignature sum_crypto no_bytes
       (block7 21 [True, True, True, True, True, True, True]) committee7"
proof -
  let ?b = "block7 21 [True, True, True, True, True, True, True]"
  have h1: "6 < length (B2 ?b)" by (simp add: block7_def)
  have h2: "B2 ?b ! 6" by (simp add: block7_def)
  have h3: "CheckBlockCosignature sum_crypto no_bytes (?b\<lparr>B2 := (B2 ?b)[6 := False], CS2 := 21\<rparr>) committee7"
    by (simp add: CheckBlockCosignature_iff committee7_def block7_def sum_crypto_def threshold_def
      count_set_def selected_keys_def sum_aggregate_def equal_verify_def cosig_message_def)
  from clearing_a_bit [OF h1 h2, where c = sum_crypto and ser = no_bytes and sg' = 21 and comm = committee7] h1 h2 h3
  show ?thesis by blast
qed

text \<open>
  C2 as stated fails: a block over the committee of seven whose \<open>B2\<close> has all seven bits
  set is rejected (seven is not the threshold six); with bit 6 cleared and everything
  else as it was, the check accepts, since \<open>CS2\<close> verifies against the six keys left.
\<close>

theorem clearing_a_bit_accepts:
  "\<not> CheckBlockCosignature sum_crypto no_bytes
       (block7 21 [True, True, True, True, True, True, True]) committee7 \<and>
   B2 (block7 21 [True, True, True, True, True, True, True]) ! 6 \<and>
   CheckBlockCosignature sum_crypto no_bytes
       ((block7 21 [True, True, True, True, True, True, True])
          \<lparr>B2 := (B2 (block7 21 [True, True, True, True, True, True, True]))[6 := False]\<rparr>)
       committee7"
  by (simp add: CheckBlockCosignature_iff committee7_def block7_def sum_crypto_def threshold_def
      count_set_def selected_keys_def sum_aggregate_def equal_verify_def cosig_message_def)

section \<open>Properties of the transaction-block check\<close>

lemma expectedDS_latest_ds_index: "latest_ds_index link = expectedDS link"
  by (simp add: latest_ds_index_def expectedDS_def)

lemma check_prev_hashes_linked:
  "Suc k < length xs \<Longrightarrow>
   check_prev_hashes xs (Suc k) k (prevHash (header (xs ! Suc k))) =
     Inr (if (\<forall>j\<le>k. myHash (header (xs ! j)) = prevHash (header (xs ! Suc j)))
          then VALID else INVALID)"
proof (induction k)
  case 0
  then show ?case by auto
next
  case (Suc k)
  then have "Suc k < length xs" by simp
  from Suc.IH [OF this] Suc.prems show ?case
    by (auto simp add: le_Suc_eq)
qed

lemma hash_linked_nth:
  "hash_linked xs \<longleftrightarrow>
     (\<forall>i. Suc i < length xs \<longrightarrow> myHash (header (xs ! i)) = prevHash (header (xs ! Suc i)))"
proof (induction xs rule: hash_linked.induct)
  case (1 b c rest)
  show ?case
  proof
    assume h: "hash_linked (b # c # rest)"
    show "\<forall>i. Suc i < length (b # c # rest) \<longrightarrow>
        myHash (header ((b # c # rest) ! i)) = prevHash (header ((b # c # rest) ! Suc i))"
    proof (intro allI impI)
      fix i assume "Suc i < length (b # c # rest)"
      with h 1 show "myHash (header ((b # c # rest) ! i)) = prevHash (header ((b # c # rest) ! Suc i))"
        by (cases i) auto
    qed
  next
    assume a: "\<forall>i. Suc i < length (b # c # rest) \<longrightarrow>
        myHash (header ((b # c # rest) ! i)) = prevHash (header ((b # c # rest) ! Suc i))"
    from a [rule_format, of 0] have h0: "myHash (header b) = prevHash (header c)" by simp
    have "\<forall>i. Suc i < length (c # rest) \<longrightarrow>
        myHash (header ((c # rest) ! i)) = prevHash (header ((c # rest) ! Suc i))"
    proof (intro allI impI)
      fix i assume "Suc i < length (c # rest)"
      with a [rule_format, of "Suc i"] show "myHash (header ((c # rest) ! i)) = prevHash (header ((c # rest) ! Suc i))"
        by simp
    qed
    with 1 h0 show "hash_linked (b # c # rest)" by simp
  qed
qed simp_all

lemma CheckTxBlocks_walk:
  assumes ne: "txBlocks \<noteq> []"
    and ds: "latest_ds_index link = Some (dsBlockNum (header (last txBlocks)))"
    and cs: "CheckBlockCosignature c ser (last txBlocks) dsComm"
  shows "CheckTxBlocks c ser txBlocks dsComm link =
           Inr (if hash_linked txBlocks then VALID else INVALID)"
proof (cases "length txBlocks < 2")
  case True
  with ne obtain b where "txBlocks = [b]"
    by (cases txBlocks) (auto simp add: less_Suc_eq)
  with ds cs show ?thesis by (simp add: CheckTxBlocks_def)
next
  case False
  define k where "k = length txBlocks - 2"
  from False have k: "Suc k < length txBlocks" "length txBlocks - 1 = Suc k"
    by (simp_all add: k_def)
  from ne k have l: "last txBlocks = txBlocks ! Suc k"
    by (simp add: last_conv_nth)
  have "(\<forall>j\<le>k. myHash (header (txBlocks ! j)) = prevHash (header (txBlocks ! Suc j))) \<longleftrightarrow>
        hash_linked txBlocks"
    using k by (auto simp add: hash_linked_nth)
  with check_prev_hashes_linked [OF k(1)]
  have "check_prev_hashes txBlocks (Suc k) k (prevHash (header (txBlocks ! Suc k))) =
          Inr (if hash_linked txBlocks then VALID else INVALID)"
    by simp
  with ne ds cs False k l show ?thesis
    by (simp add: CheckTxBlocks_def k_def)
qed

lemma CheckTxBlocks_VALID:
  assumes "CheckTxBlocks c ser txBlocks dsComm link = Inr VALID"
  shows "hash_linked txBlocks"
proof -
  from assms obtain d where d: "latest_ds_index link = Some d"
    by (auto simp add: CheckTxBlocks_def split: option.splits)
  from assms d have ne: "txBlocks \<noteq> []"
    by (auto simp add: CheckTxBlocks_def)
  from assms d ne have ds: "dsBlockNum (header (last txBlocks)) = d"
    by (auto simp add: CheckTxBlocks_def Let_def split: if_splits)
  from assms d ne ds have cs: "CheckBlockCosignature c ser (last txBlocks) dsComm"
    by (auto simp add: CheckTxBlocks_def Let_def split: if_splits)
  from CheckTxBlocks_walk [OF ne _ cs, of link] d ds assms show ?thesis
    by (auto split: if_splits)
qed

lemma CheckTxBlocks_mismatch:
  assumes "txBlocks \<noteq> []" and "latest_ds_index link = Some e"
    and "dsBlockNum (header (last txBlocks)) \<noteq> e"
  shows "CheckTxBlocks c ser txBlocks dsComm link =
           Inr (if dsBlockNum (header (last txBlocks)) < e then INVALID else STALEDSINFO)"
  using assms by (simp add: CheckTxBlocks_def)


text \<open>
  C5. For every non-empty sequence of transaction blocks and every latest block link,
  with the expected DS epoch computed as the specification says (the link's DS index
  for a DS link; Invalid for another link with DS index 0; the DS index minus one
  otherwise): when there is no expected epoch the verdict is Invalid, and when the tip's
  DS block number differs from the expected epoch the verdict is Invalid if the
  expected epoch is the greater and StaleDSInfo otherwise. The verdict is the same
  whatever the collaborators of the co-signature check and the committee are: the
  tip's co-signature plays no part in it.
\<close>

theorem tx_blocks_ds_epoch:
  assumes "txBlocks \<noteq> []"
  shows "(expectedDS link = None \<longrightarrow> CheckTxBlocks c ser txBlocks dsComm link = Inr INVALID) \<and>
         (\<forall>e. expectedDS link = Some e \<and> dsBlockNum (header (last txBlocks)) \<noteq> e \<longrightarrow>
            CheckTxBlocks c ser txBlocks dsComm link =
              Inr (if dsBlockNum (header (last txBlocks)) < e then INVALID else STALEDSINFO))"
proof (intro conjI allI impI)
  assume "expectedDS link = None"
  then show "CheckTxBlocks c ser txBlocks dsComm link = Inr INVALID"
    by (simp add: CheckTxBlocks_def expectedDS_latest_ds_index)
next
  fix e
  assume "expectedDS link = Some e \<and> dsBlockNum (header (last txBlocks)) \<noteq> e"
  with assms show "CheckTxBlocks c ser txBlocks dsComm link =
      Inr (if dsBlockNum (header (last txBlocks)) < e then INVALID else STALEDSINFO)"
    by (simp add: CheckTxBlocks_mismatch expectedDS_latest_ds_index)
qed

theorem tx_blocks_ds_epoch_witness:
  "[tx_block 7 0 1 0 []] \<noteq> [] \<and>
   expectedDS (block_link 0 BlockType_VC) = None \<and>
   CheckTxBlocks sum_crypto no_bytes [tx_block 7 0 1 0 []] committee7 (block_link 0 BlockType_VC)
     = Inr INVALID \<and>
   expectedDS (block_link 5 BlockType_VC) = Some 4 \<and>
   dsBlockNum (header (last [tx_block 7 0 1 0 []])) \<noteq> 4 \<and>
   CheckTxBlocks sum_crypto no_bytes [tx_block 7 0 1 0 []] committee7 (block_link 5 BlockType_VC)
     = Inr STALEDSINFO \<and>
   expectedDS (block_link 9 BlockType_DS) = Some 9 \<and>
   dsBlockNum (header (last [tx_block 7 0 1 0 []])) \<noteq> 9 \<and>
   CheckTxBlocks sum_crypto no_bytes [tx_block 7 0 1 0 []] committee7 (block_link 9 BlockType_DS)
     = Inr INVALID"
proof -
  let ?bs = "[tx_block 7 0 1 0 []]"
  have ne: "?bs \<noteq> []" by simp
  have e0: "expectedDS (block_link 0 BlockType_VC) = None"
    by (simp add: expectedDS_def block_link_def)
  have e5: "expectedDS (block_link 5 BlockType_VC) = Some 4"
    by (simp add: expectedDS_def block_link_def)
  have e9: "expectedDS (block_link 9 BlockType_DS) = Some 9"
    by (simp add: expectedDS_def block_link_def)
  have d4: "dsBlockNum (header (last ?bs)) \<noteq> 4" "\<not> dsBlockNum (header (last ?bs)) < 4"
    by (simp_all add: tx_block_def)
  have d9: "dsBlockNum (header (last ?bs)) \<noteq> 9" "dsBlockNum (header (last ?bs)) < 9"
    by (simp_all add: tx_block_def)
  note t = tx_blocks_ds_epoch [OF ne, where c = sum_crypto and ser = no_bytes and dsComm = committee7]
  from t [of "block_link 0 BlockType_VC"] e0
  have r0: "CheckTxBlocks sum_crypto no_bytes ?bs committee7 (block_link 0 BlockType_VC) = Inr INVALID"
    by blast
  from t [of "block_link 5 BlockType_VC"] e5 d4
  have r5: "CheckTxBlocks sum_crypto no_bytes ?bs committee7 (block_link 5 BlockType_VC) = Inr STALEDSINFO"
    by simp
  from t [of "block_link 9 BlockType_DS"] e9 d9
  have r9: "CheckTxBlocks sum_crypto no_bytes ?bs committee7 (block_link 9 BlockType_DS) = Inr INVALID"
    by simp
  from ne e0 r0 e5 d4 r5 e9 d9 r9 show ?thesis by blast
qed

text \<open>
  C6. Whenever \<^verbatim>\<open>CheckTxBlocks\<close> returns Valid, every block's own hash is the previous
  hash of the block after it. Once the expected DS epoch is the tip's and the tip's
  co-signature is verified, the verdict is Valid if the sequence is linked in this way
  and Invalid if it is not; a sequence of fewer than two blocks is linked.
\<close>

theorem tx_blocks_chain_law:
  "(CheckTxBlocks c ser txBlocks dsComm link = Inr VALID \<longrightarrow>
      (\<forall>i. Suc i < length txBlocks \<longrightarrow>
         myHash (header (txBlocks ! i)) = prevHash (header (txBlocks ! Suc i)))) \<and>
   (txBlocks \<noteq> [] \<and> expectedDS link = Some (dsBlockNum (header (last txBlocks))) \<and>
    CheckBlockCosignature c ser (last txBlocks) dsComm \<longrightarrow>
      CheckTxBlocks c ser txBlocks dsComm link =
        Inr (if hash_linked txBlocks then VALID else INVALID)) \<and>
   (length txBlocks < 2 \<longrightarrow> hash_linked txBlocks)"
proof (intro conjI impI)
  assume "CheckTxBlocks c ser txBlocks dsComm link = Inr VALID"
  then have "hash_linked txBlocks" by (rule CheckTxBlocks_VALID)
  then show "\<forall>i. Suc i < length txBlocks \<longrightarrow>
         myHash (header (txBlocks ! i)) = prevHash (header (txBlocks ! Suc i))"
    by (simp add: hash_linked_nth)
next
  assume "txBlocks \<noteq> [] \<and> expectedDS link = Some (dsBlockNum (header (last txBlocks))) \<and>
    CheckBlockCosignature c ser (last txBlocks) dsComm"
  then show "CheckTxBlocks c ser txBlocks dsComm link =
        Inr (if hash_linked txBlocks then VALID else INVALID)"
    by (simp add: CheckTxBlocks_walk expectedDS_latest_ds_index)
next
  assume "length txBlocks < 2"
  then show "hash_linked txBlocks"
    by (cases txBlocks rule: hash_linked.cases) simp_all
qed

theorem tx_blocks_chain_law_witness:
  "CheckTxBlocks sum_crypto no_bytes chain3 committee7 (block_link 4 BlockType_DS) = Inr VALID \<and>
   myHash (header (chain3 ! 0)) = prevHash (header (chain3 ! 1)) \<and>
   myHash (header (chain3 ! 1)) = prevHash (header (chain3 ! 2)) \<and>
   CheckTxBlocks sum_crypto no_bytes [tx_block 4 10 11 0 [], tx_block 4 99 13 21 tip_bitmap]
     committee7 (block_link 4 BlockType_DS) = Inr INVALID"
proof -
  let ?l = "block_link 4 BlockType_DS"
  let ?bad = "[tx_block 4 10 11 0 [], tx_block 4 99 13 21 tip_bitmap]"
  have cs: "CheckBlockCosignature sum_crypto no_bytes (tx_block 4 p 13 21 tip_bitmap) committee7" for p
    by (simp add: CheckBlockCosignature_iff committee7_def tx_block_def tip_bitmap_def
        sum_crypto_def threshold_def count_set_def selected_keys_def sum_aggregate_def
        equal_verify_def cosig_message_def)
  have e: "expectedDS ?l = Some 4" by (simp add: expectedDS_def block_link_def)
  have p3: "chain3 \<noteq> [] \<and> expectedDS ?l = Some (dsBlockNum (header (last chain3))) \<and>
      CheckBlockCosignature sum_crypto no_bytes (last chain3) committee7"
    using cs [of 12] e by (simp add: chain3_def tx_block_def)
  have pb: "?bad \<noteq> [] \<and> expectedDS ?l = Some (dsBlockNum (header (last ?bad))) \<and>
      CheckBlockCosignature sum_crypto no_bytes (last ?bad) committee7"
    using cs [of 99] e by (simp add: tx_block_def)
  have l3: "hash_linked chain3" by (simp add: chain3_def tx_block_def)
  have lb: "\<not> hash_linked ?bad" by (simp add: tx_block_def)
  note t3 = tx_blocks_chain_law [of sum_crypto no_bytes chain3 committee7 ?l]
  note tb = tx_blocks_chain_law [of sum_crypto no_bytes ?bad committee7 ?l]
  from t3 [THEN conjunct2, THEN conjunct1, THEN mp, OF p3] l3
  have v: "CheckTxBlocks sum_crypto no_bytes chain3 committee7 ?l = Inr VALID"
    by (simp only: if_True)
  from tb [THEN conjunct2, THEN conjunct1, THEN mp, OF pb] lb
  have i: "CheckTxBlocks sum_crypto no_bytes ?bad committee7 ?l = Inr INVALID"
    by (simp only: if_False)
  have len: "Suc 0 < length chain3" "Suc 1 < length chain3" by (simp_all add: chain3_def)
  note law = t3 [THEN conjunct1, THEN mp, OF v, THEN spec, THEN mp]
  from law [OF len(1)] law [OF len(2)]
  have "myHash (header (chain3 ! 0)) = prevHash (header (chain3 ! 1))"
    "myHash (header (chain3 ! 1)) = prevHash (header (chain3 ! 2))"
    by (simp_all only: One_nat_def [symmetric] Suc_1)
  with v i show ?thesis by (intro conjI)
qed


section \<open>Properties of the directory walk\<close>

lemma dir_step_Rejected_iff: "dir_step e w b = Rejected \<longleftrightarrow> fails_check e w b"
  by (cases b) (auto simp add: Let_def split: option.splits)

lemma dir_loop_append:
  "accept_all e w pre = Some w' \<Longrightarrow> dir_loop e w (pre @ rest) = dir_loop e w' rest"
proof (induction pre arbitrary: w)
  case Nil
  then show ?case by simp
next
  case (Cons b bs)
  then show ?case by (cases "dir_step e w b") simp_all
qed

lemma dir_loop_accept_all:
  "accept_all e w bs = Some w' \<Longrightarrow> dir_loop e w bs = (Inr True, w')"
  using dir_loop_append [of e w bs w' "[]"] by simp

lemma perform_effects: "effects (perform eff m) = effects m @ [eff]"
  by (cases eff) simp_all

lemma dir_step_effects:
  "dir_step e w b = Accepted w' \<Longrightarrow> prefix (effects (med w)) (effects (med w'))"
  by (cases b) (auto simp add: Let_def perform_effects split: option.splits if_splits)

lemma accept_all_effects:
  "accept_all e w bs = Some w' \<Longrightarrow> prefix (effects (med w)) (effects (med w'))"
proof (induction bs arbitrary: w)
  case Nil
  then show ?case by simp
next
  case (Cons b bs)
  then obtain w1 where s: "dir_step e w b = Accepted w1" and a: "accept_all e w1 bs = Some w'"
    by (cases "dir_step e w b") simp_all
  from dir_step_effects [OF s] Cons.IH [OF a] show ?case
    by (rule prefix_order.trans)
qed

lemma dir_step_Threw_iff:
  "dir_step e w b = Threw err \<longleftrightarrow> err = out_of_range \<and> shard_missing e w b"
  by (cases b) (auto simp add: Let_def split: option.splits)

lemma CheckDirBlocks_rejected:
  assumes "accept_all e (init_walk m initDsComm index_num) pre = Some w"
    and "fails_check e w b"
  shows "CheckDirBlocks e m (pre @ b # post) initDsComm index_num newDSComm =
           (Inr False, mutable_ds_comm w, med w)"
proof -
  from assms(2) have "dir_step e w b = Rejected" by (simp add: dir_step_Rejected_iff)
  then have "dir_loop e w (b # post) = (Inr False, w)" by simp
  with dir_loop_append [OF assms(1), of "b # post"] show ?thesis
    by (simp add: CheckDirBlocks_def)
qed

lemma CheckDirBlocks_threw:
  assumes "accept_all e (init_walk m initDsComm index_num) pre = Some w"
    and "shard_missing e w b"
  shows "CheckDirBlocks e m (pre @ b # post) initDsComm index_num newDSComm =
           (Inl out_of_range, newDSComm, med w)"
proof -
  from assms(2) have "dir_step e w b = Threw out_of_range" by (simp add: dir_step_Threw_iff)
  then have "dir_loop e w (b # post) = (Inl out_of_range, w)" by simp
  with dir_loop_append [OF assms(1), of "b # post"] show ?thesis
    by (simp add: CheckDirBlocks_def)
qed

lemma CheckDirBlocks_accepted:
  assumes "accept_all e (init_walk m initDsComm index_num) pre = Some w"
  shows "CheckDirBlocks e m pre initDsComm index_num newDSComm =
           (Inr True, mutable_ds_comm w, med w)"
  using dir_loop_accept_all [OF assms] by (simp add: CheckDirBlocks_def)

text \<open>
  The walk on the failures that set \<^verbatim>\<open>ret = false\<close> and on full success.
  \<^verbatim>\<open>CheckDirBlocks\<close> processes the blocks in order. When the blocks \<open>pre\<close> are all
  accepted and the next block fails a check (a non-sequential DS number, an epoch
  mismatch, a sharding-hash mismatch or a co-signature failure), the call returns false,
  the output roster is the committee as the blocks of \<open>pre\<close> evolved it, and the node's
  state is the one those blocks left: their effects are not undone, and the blocks after
  the failing one play no part. When all blocks are accepted the call returns true with
  the roster evolved by all of them. The effects performed before the call are a prefix
  of the effects after it.
\<close>

lemma dir_walk_stops_at_first_failure:
  assumes "accept_all e (init_walk m initDsComm index_num) pre = Some w"
  shows "(fails_check e w b \<longrightarrow>
            CheckDirBlocks e m (pre @ b # post) initDsComm index_num newDSComm =
              (Inr False, mutable_ds_comm w, med w)) \<and>
         CheckDirBlocks e m pre initDsComm index_num newDSComm =
           (Inr True, mutable_ds_comm w, med w) \<and>
         prefix (effects m) (effects (med w))"
proof -
  from accept_all_effects [OF assms] have "prefix (effects m) (effects (med w))"
    by (simp add: init_walk_def)
  with CheckDirBlocks_rejected [OF assms, of b post newDSComm]
    CheckDirBlocks_accepted [OF assms, of newDSComm]
  show ?thesis by blast
qed

lemma vc_step_frame:
  "dir_step e w (VCBlock v) = Accepted w' \<Longrightarrow>
   prevdsblocknum w' = prevdsblocknum w \<and> prevShardingHash w' = prevShardingHash w \<and>
   totalIndex w' = totalIndex w + 1"
  by (auto simp add: Let_def split: if_splits)

lemma fallback_step_frame:
  "dir_step e w (FallbackBlock f) = Accepted w' \<Longrightarrow>
   prevdsblocknum w' = prevdsblocknum w \<and> prevShardingHash w' = prevShardingHash w \<and>
   totalIndex w' = totalIndex w + 1"
  by (auto simp add: Let_def split: if_splits option.splits)

lemma ds_step_advance:
  "dir_step e w (DSBlock d) = Accepted w' \<Longrightarrow>
   prevdsblocknum w' = prevdsblocknum w + 1 \<and>
   prevShardingHash w' = ds_shardingHash (header d) \<and>
   totalIndex w' = totalIndex w + 1"
  by (auto simp add: Let_def split: if_splits)

text \<open>
  C8. A VC block that is accepted leaves the tracked DS block number and the tracked
  sharding hash as they were and adds one to the total index. A block whose acceptance
  changes either of the two is a DS block, and an accepted DS block sets them to the
  next DS number and to the sharding hash of its header.
\<close>

theorem vc_block_frame:
  "(dir_step e w (VCBlock v) = Accepted w' \<longrightarrow>
      prevdsblocknum w' = prevdsblocknum w \<and> prevShardingHash w' = prevShardingHash w \<and>
      totalIndex w' = totalIndex w + 1) \<and>
   (dir_step e w b = Accepted w' \<and>
      (prevdsblocknum w' \<noteq> prevdsblocknum w \<or> prevShardingHash w' \<noteq> prevShardingHash w) \<longrightarrow>
      (\<exists>d. b = DSBlock d)) \<and>
   (dir_step e w (DSBlock d) = Accepted w' \<longrightarrow>
      prevdsblocknum w' = prevdsblocknum w + 1 \<and>
      prevShardingHash w' = ds_shardingHash (header d) \<and>
      totalIndex w' = totalIndex w + 1)"
proof -
  have only_ds: "\<exists>d. b = DSBlock d"
    if "dir_step e w b = Accepted w' \<and>
      (prevdsblocknum w' \<noteq> prevdsblocknum w \<or> prevShardingHash w' \<noteq> prevShardingHash w)"
  proof (cases b)
    case (DSBlock d)
    then show ?thesis by simp
  next
    case (VCBlock v)
    with that vc_step_frame [of e w v w'] show ?thesis by blast
  next
    case (FallbackBlock f)
    with that fallback_step_frame [of e w f w'] show ?thesis by blast
  qed
  from vc_step_frame [of e w v w'] only_ds ds_step_advance [of e w d w']
  show ?thesis by blast
qed

lemma fallback_hash_mismatch:
  "GetShardingStructureHash e (m_shards f) \<noteq> Some (prevShardingHash w) \<Longrightarrow>
   dir_step e w (FallbackBlock f) = Rejected"
  by (auto simp add: Let_def split: option.splits)

lemma fallback_cosig:
  "fallbackDSEpochNo (header (m_fallbackblock f)) = prevdsblocknum w + 1 \<Longrightarrow>
   GetShardingStructureHash e (m_shards f) = Some (prevShardingHash w) \<Longrightarrow>
   unat (fb_shardId (header (m_fallbackblock f))) < length (m_shards f) \<Longrightarrow>
   (\<exists>w'. dir_step e w (FallbackBlock f) = Accepted w') =
     CheckBlockCosignature e (SerializeFallbackBlockHeader e) (m_fallbackblock f)
       (m_shards f ! unat (fb_shardId (header (m_fallbackblock f))))"
  by (auto simp add: Let_def)


lemma fallback_accepted:
  "dir_step e w (FallbackBlock f) = Accepted w' \<Longrightarrow>
   unat (fb_shardId (header (m_fallbackblock f))) < length (m_shards f) \<and>
   CheckBlockCosignature e (SerializeFallbackBlockHeader e) (m_fallbackblock f)
     (m_shards f ! unat (fb_shardId (header (m_fallbackblock f))))"
  by (auto simp add: Let_def split: option.splits if_splits)

lemma cosig_tip_bitmap:
  "CheckBlockCosignature sum_dir_env ser
     \<lparr>header = h, blockHash = bh, CS1 = 0, B1 = tip_bitmap, CS2 = 21, B2 = tip_bitmap\<rparr>
     committee7"
  by (simp add: CheckBlockCosignature_iff committee7_def tip_bitmap_def
      sum_dir_env_def threshold_def count_set_def selected_keys_def sum_aggregate_def
      equal_verify_def cosig_message_def)

lemma init_walk_node5: "init_walk node5 comm 0 = walk5 comm"
  by (simp add: init_walk_def node5_def ds_block_def walk5_def)

lemma step_ds5:
  "dir_step sum_dir_env (walk5 committee7) (DSBlock (ds_block 6 2 16 21 tip_bitmap)) = Accepted walk6"
proof -
  have c: "CheckBlockCosignature sum_dir_env (SerializeDSBlockHeader sum_dir_env)
      (ds_block 6 2 16 21 tip_bitmap) committee7"
    unfolding ds_block_def by (rule cosig_tip_bitmap)
  have h: "ds_blockNum (header (ds_block 6 2 16 21 tip_bitmap)) = 6"
      "ds_shardingHash (header (ds_block 6 2 16 21 tip_bitmap)) = 2"
      "blockHash (ds_block 6 2 16 21 tip_bitmap) = 16"
    by (simp_all add: ds_block_def)
  have e: "SerializeDSBlock sum_dir_env = no_bytes"
      "UpdateDSCommiteeComposition sum_dir_env = rotate_committee"
    by (simp_all add: sum_dir_env_def)
  have w: "prevdsblocknum (walk5 committee7) = 5" "totalIndex (walk5 committee7) = 0"
    "prevShardingHash (walk5 committee7) = 2" "mutable_ds_comm (walk5 committee7) = committee7"
    "med (walk5 committee7) = node5"
    by (simp_all add: walk5_def)
  show ?thesis
    by (simp add: c h e w Let_def walk6_def node6_def node5_def rotate_committee_def no_bytes_def)
qed

lemma accept_block6:
  "accept_all sum_dir_env (init_walk node5 committee7 0) [DSBlock (ds_block 6 2 16 21 tip_bitmap)]
     = Some walk6"
  by (simp add: init_walk_node5 step_ds5 del: dir_step.simps)

text \<open>
  The example of the specification: after a tip numbered 5, DS blocks numbered 6 and 8
  are presented.
  The walk returns false at the second block; the link, the chain append and the stored
  block of the first are in the effect log, and the roster is the one the first block
  made.
\<close>

lemma dir_walk_stops_at_first_failure_example:
  "accept_all sum_dir_env (init_walk node5 committee7 0) [DSBlock (ds_block 6 2 16 21 tip_bitmap)]
     = Some walk6 \<and>
   fails_check sum_dir_env walk6 (DSBlock (ds_block 8 2 18 21 tip_bitmap)) \<and>
   CheckDirBlocks sum_dir_env node5
     [DSBlock (ds_block 6 2 16 21 tip_bitmap), DSBlock (ds_block 8 2 18 21 tip_bitmap)]
     committee7 0 [] = (Inr False, rotate1 committee7, node6) \<and>
   CheckDirBlocks sum_dir_env node5 [DSBlock (ds_block 6 2 16 21 tip_bitmap)] committee7 0 []
     = (Inr True, rotate1 committee7, node6) \<and>
   prefix (effects node5) (effects node6)"
proof -
  have f: "fails_check sum_dir_env walk6 (DSBlock (ds_block 8 2 18 21 tip_bitmap))"
    by (simp add: walk6_def ds_block_def)
  note t = dir_walk_stops_at_first_failure [OF accept_block6,
      where b = "DSBlock (ds_block 8 2 18 21 tip_bitmap)" and post = "[]" and newDSComm = "[]"]
  from t [THEN conjunct1, THEN mp, OF f]
  have r1: "CheckDirBlocks sum_dir_env node5
     [DSBlock (ds_block 6 2 16 21 tip_bitmap), DSBlock (ds_block 8 2 18 21 tip_bitmap)]
     committee7 0 [] = (Inr False, rotate1 committee7, node6)"
    by (simp add: walk6_def)
  from t [THEN conjunct2, THEN conjunct1]
  have r2: "CheckDirBlocks sum_dir_env node5 [DSBlock (ds_block 6 2 16 21 tip_bitmap)] committee7 0 []
     = (Inr True, rotate1 committee7, node6)"
    by (simp add: walk6_def)
  from t [THEN conjunct2, THEN conjunct2]
  have r3: "prefix (effects node5) (effects node6)"
    by (simp add: walk6_def)
  from accept_block6 f r1 r2 r3 show ?thesis by (intro conjI)
qed


text \<open>
  C3. \<^verbatim>\<open>CheckDirBlocks\<close> is to stop at the first block that is not accepted, return
  false and assign the output roster the committee as the accepted blocks evolved it.
  Every path of the loop that sets \<^verbatim>\<open>ret = false\<close> and breaks does so, but the read
  \<^verbatim>\<open>shards.at(shard_id)\<close> of the fallback branch has no bounds check before it. After the
  tip numbered 5, DS block 6 is accepted, and a fallback block for epoch 7 follows whose
  two shards hash to the tracked sharding hash and whose header names shard 2. The
  read throws: the call returns no verdict, and the output roster is not assigned the
  committee that block 6 made; it keeps the value it had before the call.
\<close>

theorem dir_walk_throws:
  "CheckDirBlocks sum_dir_env node5
     [DSBlock (ds_block 6 2 16 21 tip_bitmap), FallbackBlock (fallback_block 7 2 [shard7, shard7])]
     committee7 0 [(9, 9)] = (Inl out_of_range, [(9, 9)], node6) \<and>
   accept_all sum_dir_env (init_walk node5 committee7 0) [DSBlock (ds_block 6 2 16 21 tip_bitmap)]
     = Some walk6 \<and>
   mutable_ds_comm walk6 \<noteq> [(9, 9)]"
proof -
  have m: "shard_missing sum_dir_env walk6 (FallbackBlock (fallback_block 7 2 [shard7, shard7]))"
    by (simp add: walk6_def fallback_block_def sum_dir_env_def shard_count_hash_def)
  from CheckDirBlocks_threw [OF accept_block6 m, of "[]" "[(9, 9)]"]
  have "CheckDirBlocks sum_dir_env node5
     [DSBlock (ds_block 6 2 16 21 tip_bitmap), FallbackBlock (fallback_block 7 2 [shard7, shard7])]
     committee7 0 [(9, 9)] = (Inl out_of_range, [(9, 9)], node6)"
    by (simp add: walk6_def)
  moreover have "mutable_ds_comm walk6 \<noteq> [(9, 9)]"
    by (simp add: walk6_def committee7_def)
  ultimately show ?thesis using accept_block6 by (intro conjI)
qed

lemma dir_step_env_crypto:
  "GetShardingStructureHash (e\<lparr>NumForConsensus := n, AggregatePubKeys := a, MultiSigVerify := v\<rparr>)
     = GetShardingStructureHash e"
  by simp

lemma CheckDirBlocks_fst:
  "fst (CheckDirBlocks e m bs initDsComm index_num newDSComm) =
     fst (dir_loop e (init_walk m initDsComm index_num) bs)"
  by (simp add: CheckDirBlocks_def split: prod.splits sum.splits)

text \<open>
  The fallback branch where it returns. For a fallback block reached by the walk: if
  the hash of its sharding structure is not the tracked sharding hash, the block is
  rejected and the walk returns false, whatever the collaborators of the co-signature
  check are (the co-signature plays no part); and when the epoch and the hash match and
  the shards hold the shard the header names, the walk ending with this block returns
  true exactly when the co-signature check of the block against that shard succeeds. A
  fallback block is accepted only if its co-signature check against that shard
  succeeds; the DS committee roster does not occur in the check.
\<close>

lemma fallback_block_check:
  assumes "accept_all e (init_walk m initDsComm index_num) pre = Some w"
  shows "(GetShardingStructureHash e (m_shards f) \<noteq> Some (prevShardingHash w) \<longrightarrow>
            dir_step e w (FallbackBlock f) = Rejected \<and>
            dir_step (e\<lparr>NumForConsensus := n, AggregatePubKeys := a, MultiSigVerify := v\<rparr>) w
              (FallbackBlock f) = Rejected \<and>
            CheckDirBlocks e m (pre @ FallbackBlock f # post) initDsComm index_num newDSComm =
              (Inr False, mutable_ds_comm w, med w)) \<and>
         (fallbackDSEpochNo (header (m_fallbackblock f)) = prevdsblocknum w + 1 \<and>
          GetShardingStructureHash e (m_shards f) = Some (prevShardingHash w) \<and>
          unat (fb_shardId (header (m_fallbackblock f))) < length (m_shards f) \<longrightarrow>
            (fst (CheckDirBlocks e m (pre @ [FallbackBlock f]) initDsComm index_num newDSComm)
               = Inr True) =
            CheckBlockCosignature e (SerializeFallbackBlockHeader e) (m_fallbackblock f)
              (m_shards f ! unat (fb_shardId (header (m_fallbackblock f))))) \<and>
         (dir_step e w (FallbackBlock f) = Accepted w' \<longrightarrow>
            unat (fb_shardId (header (m_fallbackblock f))) < length (m_shards f) \<and>
            CheckBlockCosignature e (SerializeFallbackBlockHeader e) (m_fallbackblock f)
              (m_shards f ! unat (fb_shardId (header (m_fallbackblock f)))))"
proof -
  have one: "dir_step e w (FallbackBlock f) = Rejected \<and>
            dir_step (e\<lparr>NumForConsensus := n, AggregatePubKeys := a, MultiSigVerify := v\<rparr>) w
              (FallbackBlock f) = Rejected \<and>
            CheckDirBlocks e m (pre @ FallbackBlock f # post) initDsComm index_num newDSComm =
              (Inr False, mutable_ds_comm w, med w)"
    if h: "GetShardingStructureHash e (m_shards f) \<noteq> Some (prevShardingHash w)"
  proof -
    from h have r: "dir_step e w (FallbackBlock f) = Rejected"
      by (rule fallback_hash_mismatch)
    from h have r': "dir_step (e\<lparr>NumForConsensus := n, AggregatePubKeys := a, MultiSigVerify := v\<rparr>) w
              (FallbackBlock f) = Rejected"
      by (intro fallback_hash_mismatch) (simp only: dir_step_env_crypto, simp)
    from r have "dir_loop e w (FallbackBlock f # post) = (Inr False, w)" by simp
    with dir_loop_append [OF assms, of "FallbackBlock f # post"]
    have "CheckDirBlocks e m (pre @ FallbackBlock f # post) initDsComm index_num newDSComm =
              (Inr False, mutable_ds_comm w, med w)"
      by (simp add: CheckDirBlocks_def)
    with r r' show ?thesis by (intro conjI)
  qed
  have two: "(fst (CheckDirBlocks e m (pre @ [FallbackBlock f]) initDsComm index_num newDSComm)
               = Inr True) =
            CheckBlockCosignature e (SerializeFallbackBlockHeader e) (m_fallbackblock f)
              (m_shards f ! unat (fb_shardId (header (m_fallbackblock f))))"
    if h: "fallbackDSEpochNo (header (m_fallbackblock f)) = prevdsblocknum w + 1 \<and>
          GetShardingStructureHash e (m_shards f) = Some (prevShardingHash w) \<and>
          unat (fb_shardId (header (m_fallbackblock f))) < length (m_shards f)"
  proof -
    from h have c: "(\<exists>w'. dir_step e w (FallbackBlock f) = Accepted w') =
        CheckBlockCosignature e (SerializeFallbackBlockHeader e) (m_fallbackblock f)
          (m_shards f ! unat (fb_shardId (header (m_fallbackblock f))))"
      by (intro fallback_cosig) simp_all
    have s: "(fst (dir_loop e w [FallbackBlock f]) = Inr True) =
        (\<exists>w'. dir_step e w (FallbackBlock f) = Accepted w')"
      by (cases "dir_step e w (FallbackBlock f)") (simp_all del: dir_step.simps)
    have "fst (CheckDirBlocks e m (pre @ [FallbackBlock f]) initDsComm index_num newDSComm) =
        fst (dir_loop e w [FallbackBlock f])"
      by (simp only: CheckDirBlocks_fst dir_loop_append [OF assms])
    with s c show ?thesis by (simp only:)
  qed
  from one two fallback_accepted [of e w f w'] show ?thesis by blast
qed

lemma cosig_shard7:
  "CheckBlockCosignature sum_dir_env ser
     \<lparr>header = h, blockHash = bh, CS1 = 0, B1 = tip_bitmap, CS2 = 21, B2 = tip_bitmap\<rparr>
     shard7"
  by (simp add: CheckBlockCosignature_iff shard7_def tip_bitmap_def
      sum_dir_env_def threshold_def count_set_def selected_keys_def sum_aggregate_def
      equal_verify_def cosig_message_def)

lemma fallback_block_check_example:
  "accept_all sum_dir_env (init_walk node5 [] 0) [] = Some (walk5 []) \<and>
   GetShardingStructureHash sum_dir_env (m_shards (fallback_block 6 1 [shard7, shard7, shard7]))
     \<noteq> Some (prevShardingHash (walk5 [])) \<and>
   CheckDirBlocks sum_dir_env node5 [FallbackBlock (fallback_block 6 1 [shard7, shard7, shard7])]
     [] 0 [] = (Inr False, [], node5) \<and>
   fallbackDSEpochNo (header (m_fallbackblock (fallback_block 6 1 [[], shard7])))
     = prevdsblocknum (walk5 []) + 1 \<and>
   GetShardingStructureHash sum_dir_env (m_shards (fallback_block 6 1 [[], shard7]))
     = Some (prevShardingHash (walk5 [])) \<and>
   unat (fb_shardId (header (m_fallbackblock (fallback_block 6 1 [[], shard7]))))
     < length (m_shards (fallback_block 6 1 [[], shard7])) \<and>
   CheckBlockCosignature sum_dir_env (SerializeFallbackBlockHeader sum_dir_env)
     (m_fallbackblock (fallback_block 6 1 [[], shard7])) shard7 \<and>
   fst (CheckDirBlocks sum_dir_env node5 [FallbackBlock (fallback_block 6 1 [[], shard7])] [] 0 [])
     = Inr True \<and>
   dir_step sum_dir_env (walk5 []) (FallbackBlock (fallback_block 6 1 [[], shard7]))
     = Accepted walk5_fb"
proof -
  let ?bad = "fallback_block 6 1 [shard7, shard7, shard7]"
  let ?good = "fallback_block 6 1 [[], shard7]"
  have a: "accept_all sum_dir_env (init_walk node5 [] 0) [] = Some (walk5 [])"
    by (simp add: init_walk_node5)
  have hb: "GetShardingStructureHash sum_dir_env (m_shards ?bad) \<noteq> Some (prevShardingHash (walk5 []))"
    by (simp add: sum_dir_env_def shard_count_hash_def fallback_block_def walk5_def)
  have g: "fallbackDSEpochNo (header (m_fallbackblock ?good)) = prevdsblocknum (walk5 []) + 1 \<and>
      GetShardingStructureHash sum_dir_env (m_shards ?good) = Some (prevShardingHash (walk5 [])) \<and>
      unat (fb_shardId (header (m_fallbackblock ?good))) < length (m_shards ?good)"
    by (simp add: sum_dir_env_def shard_count_hash_def fallback_block_def walk5_def)
  have ix: "m_shards ?good ! unat (fb_shardId (header (m_fallbackblock ?good))) = shard7"
    by (simp add: fallback_block_def)
  have c: "CheckBlockCosignature sum_dir_env (SerializeFallbackBlockHeader sum_dir_env)
      (m_fallbackblock ?good) shard7"
    unfolding fallback_block_def by (simp add: cosig_shard7)
  note tb = fallback_block_check [OF a, where f = ?bad and post = "[]" and newDSComm = "[]"]
  note tg = fallback_block_check [OF a, where f = ?good and newDSComm = "[]" and w' = walk5_fb]
  from tb [THEN conjunct1, THEN mp, OF hb, THEN conjunct2, THEN conjunct2]
  have rb: "CheckDirBlocks sum_dir_env node5 [FallbackBlock ?bad] [] 0 [] = (Inr False, [], node5)"
    by (simp add: walk5_def)
  from tg [THEN conjunct2, THEN conjunct1, THEN mp, OF g] c
  have rg: "fst (CheckDirBlocks sum_dir_env node5 [FallbackBlock ?good] [] 0 []) = Inr True"
    by (simp only: ix append_Nil)
  from g have g1: "fallbackDSEpochNo (header (m_fallbackblock ?good)) = prevdsblocknum (walk5 []) + 1"
    and g2: "GetShardingStructureHash sum_dir_env (m_shards ?good) = Some (prevShardingHash (walk5 []))"
    and g3: "unat (fb_shardId (header (m_fallbackblock ?good))) < length (m_shards ?good)"
    by blast+
  have e: "SerializeFallbackBlockWShardingStructure sum_dir_env = no_bytes"
      "UpdateDSCommitteeAfterFallback sum_dir_env = promote_leader"
      "GetShardingStructureHash sum_dir_env = shard_count_hash"
    by (simp_all add: sum_dir_env_def)
  have fb: "m_shards ?good = [[], shard7]"
      "fallbackDSEpochNo (header (m_fallbackblock ?good)) = 6"
      "fb_shardId (header (m_fallbackblock ?good)) = 1"
      "leaderPubKey (header (m_fallbackblock ?good)) = 1"
      "leaderNetworkInfo (header (m_fallbackblock ?good)) = 0"
      "blockHash (m_fallbackblock ?good) = 30"
    by (simp_all add: fallback_block_def)
  have w: "prevdsblocknum (walk5 []) = 5" "totalIndex (walk5 []) = 0"
    "prevShardingHash (walk5 []) = 2" "mutable_ds_comm (walk5 []) = []"
    "med (walk5 []) = node5"
    by (simp_all add: walk5_def)
  have st: "dir_step sum_dir_env (walk5 []) (FallbackBlock ?good) = Accepted walk5_fb"
    using c by (simp add: e fb w Let_def shard_count_hash_def walk5_fb_def node5_def
        promote_leader_def no_bytes_def)
  from tg [THEN conjunct2, THEN conjunct2, THEN mp, OF st]
  have "unat (fb_shardId (header (m_fallbackblock ?good))) < length (m_shards ?good)"
    by (rule conjunct1)
  with a hb rb g1 g2 c rg st show ?thesis by (intro conjI)
qed

text \<open>
  C4. When the hash of a fallback block's sharding structure is the tracked sharding
  hash, the block's co-signature is to be verified against the shard its header names.
  The read \<^verbatim>\<open>shards.at(shard_id)\<close> has no bounds check before it: at a fallback block for
  the next epoch whose two shards hash to the tracked sharding hash and whose header
  names shard 5, it throws. No co-signature is verified, although the block's
  co-signature verifies against each of its two shards, and the walk returns no
  verdict.
\<close>

theorem fallback_shard_missing_throws:
  "fallbackDSEpochNo (header (m_fallbackblock (fallback_block 6 5 [shard7, shard7])))
     = prevdsblocknum (walk5 []) + 1 \<and>
   GetShardingStructureHash sum_dir_env (m_shards (fallback_block 6 5 [shard7, shard7]))
     = Some (prevShardingHash (walk5 [])) \<and>
   length (m_shards (fallback_block 6 5 [shard7, shard7]))
     \<le> unat (fb_shardId (header (m_fallbackblock (fallback_block 6 5 [shard7, shard7])))) \<and>
   CheckBlockCosignature sum_dir_env (SerializeFallbackBlockHeader sum_dir_env)
     (m_fallbackblock (fallback_block 6 5 [shard7, shard7])) shard7 \<and>
   dir_step sum_dir_env (walk5 []) (FallbackBlock (fallback_block 6 5 [shard7, shard7]))
     = Threw out_of_range \<and>
   CheckDirBlocks sum_dir_env node5 [FallbackBlock (fallback_block 6 5 [shard7, shard7])]
     [] 0 [(9, 9)] = (Inl out_of_range, [(9, 9)], node5)"
proof -
  let ?f = "fallback_block 6 5 [shard7, shard7]"
  have h: "fallbackDSEpochNo (header (m_fallbackblock ?f)) = prevdsblocknum (walk5 []) + 1"
      "GetShardingStructureHash sum_dir_env (m_shards ?f) = Some (prevShardingHash (walk5 []))"
      "length (m_shards ?f) \<le> unat (fb_shardId (header (m_fallbackblock ?f)))"
    by (simp_all add: sum_dir_env_def shard_count_hash_def fallback_block_def walk5_def)
  have c: "CheckBlockCosignature sum_dir_env (SerializeFallbackBlockHeader sum_dir_env)
      (m_fallbackblock ?f) shard7"
    unfolding fallback_block_def by (simp add: cosig_shard7)
  from h have m: "shard_missing sum_dir_env (walk5 []) (FallbackBlock ?f)" by simp
  then have s: "dir_step sum_dir_env (walk5 []) (FallbackBlock ?f) = Threw out_of_range"
    by (simp only: dir_step_Threw_iff)
  have a: "accept_all sum_dir_env (init_walk node5 [] 0) [] = Some (walk5 [])"
    by (simp add: init_walk_node5)
  from CheckDirBlocks_threw [OF a m, of "[]" "[(9, 9)]"]
  have r: "CheckDirBlocks sum_dir_env node5 [FallbackBlock ?f] [] 0 [(9, 9)] =
      (Inl out_of_range, [(9, 9)], node5)"
    by (simp add: walk5_def)
  from h c s r show ?thesis by (intro conjI)
qed

lemma step_vc5:
  "dir_step sum_dir_env (walk5 committee7) (VCBlock (vc_block 6 40 21 tip_bitmap)) = Accepted walk5_vc"
proof -
  have c: "CheckBlockCosignature sum_dir_env (SerializeVCBlockHeader sum_dir_env)
      (vc_block 6 40 21 tip_bitmap) committee7"
    unfolding vc_block_def by (rule cosig_tip_bitmap)
  have h: "vieWChangeDSEpochNo (header (vc_block 6 40 21 tip_bitmap)) = 6"
      "blockHash (vc_block 6 40 21 tip_bitmap) = 40"
    by (simp_all add: vc_block_def)
  have e: "SerializeVCBlock sum_dir_env = no_bytes"
      "UpdateRetrieveDSCommiteeCompositionAfterVC sum_dir_env = rotate_committee_vc"
    by (simp_all add: sum_dir_env_def)
  have w: "prevdsblocknum (walk5 committee7) = 5" "totalIndex (walk5 committee7) = 0"
    "prevShardingHash (walk5 committee7) = 2" "mutable_ds_comm (walk5 committee7) = committee7"
    "med (walk5 committee7) = node5"
    by (simp_all add: walk5_def)
  show ?thesis
    by (simp add: c h e w Let_def walk5_vc_def node5_def rotate_committee_vc_def no_bytes_def)
qed

theorem vc_block_frame_witness:
  "dir_step sum_dir_env (walk5 committee7) (VCBlock (vc_block 6 40 21 tip_bitmap)) = Accepted walk5_vc \<and>
   prevdsblocknum walk5_vc = prevdsblocknum (walk5 committee7) \<and>
   prevShardingHash walk5_vc = prevShardingHash (walk5 committee7) \<and>
   totalIndex walk5_vc = totalIndex (walk5 committee7) + 1 \<and>
   dir_step sum_dir_env (walk5 committee7) (DSBlock (ds_block 6 2 16 21 tip_bitmap)) = Accepted walk6 \<and>
   prevdsblocknum walk6 \<noteq> prevdsblocknum (walk5 committee7) \<and>
   prevdsblocknum walk6 = prevdsblocknum (walk5 committee7) + 1 \<and>
   prevShardingHash walk6 = ds_shardingHash (header (ds_block 6 2 16 21 tip_bitmap)) \<and>
   totalIndex walk6 = totalIndex (walk5 committee7) + 1"
proof -
  note t = vc_block_frame [of sum_dir_env "walk5 committee7" "vc_block 6 40 21 tip_bitmap" walk5_vc
      "DSBlock (ds_block 6 2 16 21 tip_bitmap)" "ds_block 6 2 16 21 tip_bitmap"]
  have n: "prevdsblocknum walk6 \<noteq> prevdsblocknum (walk5 committee7)"
    by (simp add: walk6_def walk5_def)
  from t [THEN conjunct1, THEN mp, OF step_vc5]
  have v: "prevdsblocknum walk5_vc = prevdsblocknum (walk5 committee7) \<and>
   prevShardingHash walk5_vc = prevShardingHash (walk5 committee7) \<and>
   totalIndex walk5_vc = totalIndex (walk5 committee7) + 1" .
  note t2 = vc_block_frame [of sum_dir_env "walk5 committee7" "vc_block 6 40 21 tip_bitmap" walk6
      "DSBlock (ds_block 6 2 16 21 tip_bitmap)" "ds_block 6 2 16 21 tip_bitmap"]
  from t2 [THEN conjunct2, THEN conjunct2, THEN mp, OF step_ds5]
  have d: "prevdsblocknum walk6 = prevdsblocknum (walk5 committee7) + 1 \<and>
      prevShardingHash walk6 = ds_shardingHash (header (ds_block 6 2 16 21 tip_bitmap)) \<and>
      totalIndex walk6 = totalIndex (walk5 committee7) + 1" .
  from step_vc5 v step_ds5 n d show ?thesis by blast
qed

section \<open>Properties of the transaction checks\<close>

lemma CheckCreatedTransactionFromLookup_iff:
  "CheckCreatedTransactionFromLookup e m store tx =
     (LOOKUP_NODE_MODE e \<or>
      UnpackA e (version tx) = CHAIN_ID e \<and>
      GetAddressFromPublicKey e (senderPubKey tx) \<noteq> NullAddress \<and>
      (m_mode m = IDLE \<longrightarrow>
         GetShardIndex e (GetAddressFromPublicKey e (senderPubKey tx)) (getNumShards m) = GetShardId m \<and>
         (data tx \<noteq> [] \<and> toAddr tx \<noteq> NullAddress \<longrightarrow>
            GetShardIndex e (toAddr tx) (getNumShards m) =
              GetShardIndex e (GetAddressFromPublicKey e (senderPubKey tx)) (getNumShards m))) \<and>
      \<not> gasPrice tx < ds_gasPrice (header (lastDSBlock m)) \<and>
      VerifyTransaction e tx \<and>
      IsAccountExist e store (GetAddressFromPublicKey e (senderPubKey tx)) \<and>
      \<not> GetBalance e store (GetAddressFromPublicKey e (senderPubKey tx)) < amount tx)"
  by (auto simp add: CheckCreatedTransactionFromLookup_def shard_checks_def Let_def)

lemma CheckCreatedTransactionFromLookup_not_idle:
  "m_mode m \<noteq> IDLE \<Longrightarrow>
   CheckCreatedTransactionFromLookup (e\<lparr>GetShardIndex := g\<rparr>) (m\<lparr>GetShardId := s, getNumShards := k\<rparr>)
     store tx = CheckCreatedTransactionFromLookup e m store tx"
  by (simp add: CheckCreatedTransactionFromLookup_def GetAddressFromPublicKey_def
      VerifyTransaction_def Let_def)

text \<open>
  C7. \<^verbatim>\<open>CheckCreatedTransactionFromLookup\<close> accepts a transaction exactly when the node is
  in lookup mode (the guard that comes first) or all of its checks pass; among them,
  the two shard-routing checks count if and only if the directory service is idle: the
  shard of the sender's address must be this node's shard, and, when the payload is not
  empty and the to-address is not the null address, the shard of the to-address must be
  the sender's shard. When the directory service is not idle the verdict does not
  depend on the shard function, on the node's shard or on the number of shards.
\<close>

theorem lookup_shard_routing:
  "CheckCreatedTransactionFromLookup e m store tx =
     (LOOKUP_NODE_MODE e \<or>
      UnpackA e (version tx) = CHAIN_ID e \<and>
      GetAddressFromPublicKey e (senderPubKey tx) \<noteq> NullAddress \<and>
      (m_mode m = IDLE \<longrightarrow>
         GetShardIndex e (GetAddressFromPublicKey e (senderPubKey tx)) (getNumShards m) = GetShardId m \<and>
         (data tx \<noteq> [] \<and> toAddr tx \<noteq> NullAddress \<longrightarrow>
            GetShardIndex e (toAddr tx) (getNumShards m) =
              GetShardIndex e (GetAddressFromPublicKey e (senderPubKey tx)) (getNumShards m))) \<and>
      \<not> gasPrice tx < ds_gasPrice (header (lastDSBlock m)) \<and>
      VerifyTransaction e tx \<and>
      IsAccountExist e store (GetAddressFromPublicKey e (senderPubKey tx)) \<and>
      \<not> GetBalance e store (GetAddressFromPublicKey e (senderPubKey tx)) < amount tx) \<and>
   (m_mode m \<noteq> IDLE \<longrightarrow>
      CheckCreatedTransactionFromLookup (e\<lparr>GetShardIndex := g\<rparr>)
        (m\<lparr>GetShardId := s, getNumShards := k\<rparr>) store tx =
      CheckCreatedTransactionFromLookup e m store tx)"
  using CheckCreatedTransactionFromLookup_iff [of e m store tx]
    CheckCreatedTransactionFromLookup_not_idle [where m = m and e = e and g = g and s = s and k = k and store = store and tx = tx]
  by blast

text \<open>
  C9. In lookup mode \<^verbatim>\<open>CheckCreatedTransaction\<close> returns true for every transaction and
  leaves the receipt and the account store as they are, and
  \<^verbatim>\<open>CheckCreatedTransactionFromLookup\<close> returns true for every transaction: whatever the
  chain identifier, the addresses, the shards, the gas price, the signature and the
  balance are.
\<close>

theorem lookup_mode_accepts:
  assumes "LOOKUP_NODE_MODE e"
  shows "CheckCreatedTransaction e m store tx receipt = (True, receipt, store) \<and>
         CheckCreatedTransactionFromLookup e m' store tx"
  using assms by (simp add: CheckCreatedTransaction_def CheckCreatedTransactionFromLookup_def)

text \<open>
  C10. When the checks of \<^verbatim>\<open>CheckCreatedTransaction\<close> are performed (the node is not in
  lookup mode) and the transaction passes the chain-identifier, non-null sender
  address, account-existence and sufficient-balance checks, the result of the call is
  the result of the temporary account-store update on the receipt stamped with the
  current epoch. So when that update returns false and hands the receipt back as it got
  it, the call returns false with the stamped receipt.
\<close>

theorem receipt_stamped_before_update:
  assumes "\<not> LOOKUP_NODE_MODE e"
    and "UnpackA e (version tx) = CHAIN_ID e"
    and "GetAddressFromPublicKey e (senderPubKey tx) \<noteq> NullAddress"
    and "IsAccountExist e store (GetAddressFromPublicKey e (senderPubKey tx))"
    and "\<not> GetBalance e store (GetAddressFromPublicKey e (senderPubKey tx)) < amount tx"
  shows "CheckCreatedTransaction e m store tx receipt =
           UpdateAccountsTemp e (m_currentEpochNum m) (getNumShards m) (m_mode m \<noteq> IDLE) tx
             (receipt\<lparr>epoch_num := m_currentEpochNum m\<rparr>) store \<and>
         (UpdateAccountsTemp e (m_currentEpochNum m) (getNumShards m) (m_mode m \<noteq> IDLE) tx
             (receipt\<lparr>epoch_num := m_currentEpochNum m\<rparr>) store =
            (False, receipt\<lparr>epoch_num := m_currentEpochNum m\<rparr>, store') \<longrightarrow>
          CheckCreatedTransaction e m store tx receipt =
            (False, receipt\<lparr>epoch_num := m_currentEpochNum m\<rparr>, store'))"
  using assms by (simp add: CheckCreatedTransaction_def SetEpochNum_def Let_def)


lemma shard_env_address: "GetAddressFromPublicKey (shard_env l) k = key_address k"
  by (simp add: GetAddressFromPublicKey_def shard_env_def key_bytes_def pad_digest_def
      key_address_def ACC_ADDR_SIZE_def)

lemma key_address_not_null: "of_nat k \<noteq> (0 :: 8 word) \<Longrightarrow> key_address k \<noteq> NullAddress"
proof
  assume k: "of_nat k \<noteq> (0 :: 8 word)" and "key_address k = NullAddress"
  then have "last (key_address k) = last NullAddress" by simp
  with k show False by (simp add: key_address_def NullAddress_def ACC_ADDR_SIZE_def)
qed

lemma key_address_shard:
  "low_byte_shard (key_address 3) 2 = 1" "low_byte_shard (key_address 4) 2 = 0"
  by (simp_all add: low_byte_shard_def key_address_def)

lemma key_address_eq: "key_address j = key_address k \<longleftrightarrow> (of_nat j :: 8 word) = of_nat k"
  by (simp add: key_address_def)

lemma accounts_facts:
  "account_exists accounts (key_address 3)" "account_exists accounts (key_address 4)"
  "account_balance accounts (key_address 3) = 100" "account_balance accounts (key_address 4) = 100"
  by (simp_all add: account_exists_def account_balance_def accounts_def key_address_eq)

lemma transfer_fields:
  "version (transfer v sender to payload) = v"
  "senderPubKey (transfer v sender to payload) = sender"
  "toAddr (transfer v sender to payload) = to"
  "amount (transfer v sender to payload) = 10"
  "gasPrice (transfer v sender to payload) = 1"
  "data (transfer v sender to payload) = payload"
  "signature (transfer v sender to payload) = sender"
  by (simp_all add: transfer_def)

lemma shard_env_fields:
  "LOOKUP_NODE_MODE (shard_env l) = l" "CHAIN_ID (shard_env l) = 1"
  "UnpackA (shard_env l) = high_half" "GetShardIndex (shard_env l) = low_byte_shard"
  "IsAccountExist (shard_env l) = account_exists" "GetBalance (shard_env l) = account_balance"
  "UpdateAccountsTemp (shard_env l) = reject_update"
  "VerifyTransaction (shard_env l) (transfer v sender to payload)"
  by (simp_all add: shard_env_def VerifyTransaction_def transfer_def equal_schnorr_def)

lemma node5_fields:
  "m_mode node5 = IDLE" "GetShardId node5 = 0" "getNumShards node5 = 2"
  "m_currentEpochNum node5 = 500" "ds_gasPrice (header (lastDSBlock node5)) = 0"
  by (simp_all add: node5_def ds_block_def)

lemma high_half_version: "high_half 65537 = 1" "high_half 131073 = 2"
  by (simp_all add: high_half_def)

theorem lookup_shard_routing_witness:
  "\<not> CheckCreatedTransactionFromLookup (shard_env False) node5 accounts
       (transfer 65537 3 (key_address 4) []) \<and>
   \<not> CheckCreatedTransactionFromLookup (shard_env False) node5 accounts
       (transfer 65537 4 (key_address 3) [1]) \<and>
   CheckCreatedTransactionFromLookup (shard_env False) node5 accounts
       (transfer 65537 4 (key_address 3) []) \<and>
   CheckCreatedTransactionFromLookup (shard_env False) (node5\<lparr>m_mode := PRIMARY_DS\<rparr>) accounts
       (transfer 65537 3 (key_address 4) []) \<and>
   CheckCreatedTransactionFromLookup (shard_env False) (node5\<lparr>m_mode := PRIMARY_DS\<rparr>) accounts
       (transfer 65537 4 (key_address 3) [1])"
proof -
  note f = shard_env_address key_address_not_null key_address_shard accounts_facts
    transfer_fields shard_env_fields node5_fields high_half_version
  note t = lookup_shard_routing [THEN conjunct1]
  have a: "\<not> CheckCreatedTransactionFromLookup (shard_env False) node5 accounts
       (transfer 65537 3 (key_address 4) [])"
    by (subst t) (simp add: f)
  have b: "\<not> CheckCreatedTransactionFromLookup (shard_env False) node5 accounts
       (transfer 65537 4 (key_address 3) [1])"
    by (subst t) (simp add: f)
  have c: "CheckCreatedTransactionFromLookup (shard_env False) node5 accounts
       (transfer 65537 4 (key_address 3) [])"
    by (subst t) (simp add: f)
  have d: "CheckCreatedTransactionFromLookup (shard_env False) (node5\<lparr>m_mode := PRIMARY_DS\<rparr>) accounts
       (transfer 65537 3 (key_address 4) [])"
    by (subst t) (simp add: f)
  have e: "CheckCreatedTransactionFromLookup (shard_env False) (node5\<lparr>m_mode := PRIMARY_DS\<rparr>) accounts
       (transfer 65537 4 (key_address 3) [1])"
    by (subst t) (simp add: f)
  from a b c d e show ?thesis by (intro conjI)
qed

theorem lookup_mode_accepts_witness:
  "LOOKUP_NODE_MODE (shard_env True) \<and>
   CheckCreatedTransaction (shard_env True) node5 [] (transfer 131073 0 [] [])
     \<lparr>epoch_num = 7\<rparr> = (True, \<lparr>epoch_num = 7\<rparr>, []) \<and>
   CheckCreatedTransactionFromLookup (shard_env True) node5 [] (transfer 131073 0 [] [])"
proof -
  have l: "LOOKUP_NODE_MODE (shard_env True)" by (simp add: shard_env_fields)
  from l lookup_mode_accepts [OF l, of node5 "[]" "transfer 131073 0 [] []" "\<lparr>epoch_num = 7\<rparr>" node5]
  show ?thesis by (intro conjI) simp_all
qed

theorem receipt_stamped_before_update_witness:
  "\<not> LOOKUP_NODE_MODE (shard_env False) \<and>
   UnpackA (shard_env False) (version (transfer 65537 3 (key_address 4) [])) = CHAIN_ID (shard_env False) \<and>
   GetAddressFromPublicKey (shard_env False) (senderPubKey (transfer 65537 3 (key_address 4) []))
     \<noteq> NullAddress \<and>
   IsAccountExist (shard_env False) accounts
     (GetAddressFromPublicKey (shard_env False) (senderPubKey (transfer 65537 3 (key_address 4) []))) \<and>
   \<not> GetBalance (shard_env False) accounts
       (GetAddressFromPublicKey (shard_env False) (senderPubKey (transfer 65537 3 (key_address 4) [])))
     < amount (transfer 65537 3 (key_address 4) []) \<and>
   CheckCreatedTransaction (shard_env False) node5 accounts (transfer 65537 3 (key_address 4) [])
     \<lparr>epoch_num = 7\<rparr> = (False, \<lparr>epoch_num = 500\<rparr>, accounts)"
proof -
  let ?e = "shard_env False"
  let ?tx = "transfer 65537 3 (key_address 4) []"
  note f = shard_env_address key_address_not_null accounts_facts
    transfer_fields shard_env_fields node5_fields high_half_version
  have h1: "\<not> LOOKUP_NODE_MODE ?e" by (simp add: f)
  have h2: "UnpackA ?e (version ?tx) = CHAIN_ID ?e" by (simp add: f)
  have h3: "GetAddressFromPublicKey ?e (senderPubKey ?tx) \<noteq> NullAddress" by (simp add: f)
  have h4: "IsAccountExist ?e accounts (GetAddressFromPublicKey ?e (senderPubKey ?tx))"
    by (simp add: f)
  have h5: "\<not> GetBalance ?e accounts (GetAddressFromPublicKey ?e (senderPubKey ?tx)) < amount ?tx"
    by (simp add: f)
  from receipt_stamped_before_update [OF h1 h2 h3 h4 h5, of node5 "\<lparr>epoch_num = 7\<rparr>", THEN conjunct1]
  have r: "CheckCreatedTransaction ?e node5 accounts ?tx \<lparr>epoch_num = 7\<rparr> =
      (False, \<lparr>epoch_num = 500\<rparr>, accounts)"
    by (simp add: f reject_update_def)
  from h1 h2 h3 h4 h5 r show ?thesis by (intro conjI)
qed

end
